theory Spec2Isabelle
  imports Complex_Main
begin

section \<open>Data model (types.ts)\<close>

text \<open>
  The optional image of a message, \<^verbatim>\<open>{ data: string; mimeType: string }\<close>: base64 data and
  its MIME type.
\<close>

record inline_image =
  data :: string
  mimeType :: string

datatype role = USER | MODEL

text \<open>
  A JavaScript \<^verbatim>\<open>Date\<close> holds a time value: an integral number of milliseconds since the
  epoch, or NaN (an "Invalid Date").
\<close>

datatype js_date = Date int | InvalidDate

text \<open>
  \<^verbatim>\<open>interface Message { id; role; content; timestamp; image? }\<close>. The fields \<^verbatim>\<open>id\<close> and
  \<^verbatim>\<open>image\<close> carry a suffix, since HOL has constants of these names.
\<close>

record message =
  id_msg :: string
  role :: role
  content :: string
  timestamp :: js_date
  image_msg :: "inline_image option"

section \<open>JavaScript strings and truthiness\<close>

text \<open>\<^verbatim>\<open>a || b\<close> on strings: the empty string is falsy.\<close>

definition str_or :: "string \<Rightarrow> string \<Rightarrow> string" where
  "str_or a b = (if a \<noteq> [] then a else b)"

text \<open>\<^verbatim>\<open>a || b\<close> where \<^verbatim>\<open>a\<close> may also be \<^verbatim>\<open>undefined\<close>.\<close>

definition opt_str_or :: "string option \<Rightarrow> string \<Rightarrow> string" where
  "opt_str_or a b = (case a of None \<Rightarrow> b | Some s \<Rightarrow> str_or s b)"

text \<open>\<^verbatim>\<open>String.prototype.includes\<close>: the needle occurs at some position of the string.\<close>

fun starts_with :: "string \<Rightarrow> string \<Rightarrow> bool" where
  "starts_with s [] = True"
| "starts_with [] (p # ps) = False"
| "starts_with (c # cs) (p # ps) = (c = p \<and> starts_with cs ps)"

fun includes_str :: "string \<Rightarrow> string \<Rightarrow> bool" where
  "includes_str [] needle = starts_with [] needle"
| "includes_str (c # cs) needle = (starts_with (c # cs) needle \<or> includes_str cs needle)"

text \<open>
  \<^verbatim>\<open>Number.prototype.toString\<close> on an integer (the readings of \<^verbatim>\<open>Date.now()\<close>): its decimal
  digits, with a minus sign when negative.
\<close>

definition digit_char :: "nat \<Rightarrow> char" where
  "digit_char d = char_of (48 + d)"

fun nat_toString :: "nat \<Rightarrow> string" where
  "nat_toString n = (if n < 10 then [digit_char n] else nat_toString (n div 10) @ [digit_char (n mod 10)])"

definition number_toString :: "int \<Rightarrow> string" where
  "number_toString i = (if i < 0 then CHR ''-'' # nat_toString (nat (- i)) else nat_toString (nat i))"

section \<open>The edit-intent pattern\<close>

text \<open>
  \<^verbatim>\<open>/filter|add|remove|change|replace|edit|make/i.test(content)\<close>.
  With the flag \<^verbatim>\<open>i\<close> (and without \<^verbatim>\<open>u\<close>) a pattern character and an input character
  match when their canonical forms are equal; the canonical form is the upper-case
  character, except that a character outside ASCII is never mapped into ASCII. For the
  ASCII letters of this pattern only ASCII letters can therefore match.
\<close>

definition canonicalize :: "char \<Rightarrow> char" where
  "canonicalize c =
     (if (97::nat) \<le> of_char c \<and> of_char c \<le> (122::nat) then char_of (of_char c - (32::nat)) else c)"

text \<open>One alternative of the pattern, a literal, matched at the start of the input.\<close>

fun matches_at :: "string \<Rightarrow> string \<Rightarrow> bool" where
  "matches_at [] s = True"
| "matches_at (p # ps) [] = False"
| "matches_at (p # ps) (c # cs) = (canonicalize p = canonicalize c \<and> matches_at ps cs)"

text \<open>\<^verbatim>\<open>test\<close> tries every start position, and at each the alternatives from left to right.\<close>

fun regex_test :: "string list \<Rightarrow> string \<Rightarrow> bool" where
  "regex_test alts [] = list_ex (\<lambda>a. matches_at a []) alts"
| "regex_test alts (c # cs) = (list_ex (\<lambda>a. matches_at a (c # cs)) alts \<or> regex_test alts cs)"

definition edit_pattern :: "string list" where
  "edit_pattern = [''filter'', ''add'', ''remove'', ''change'', ''replace'', ''edit'', ''make'']"

text \<open>
  \<^verbatim>\<open>const isEditRequest = image && !isThinking && /.../i.test(content)\<close>, read as a
  condition (an image object is truthy).
\<close>

definition isEditRequest :: "inline_image option \<Rightarrow> bool \<Rightarrow> string \<Rightarrow> bool" where
  "isEditRequest img thinkingNow txt =
     (img \<noteq> None \<and> \<not> thinkingNow \<and> regex_test edit_pattern txt)"

section \<open>The provider SDK, as far as the Gateway uses it\<close>

text \<open>
  A \<^verbatim>\<open>Part\<close> of the SDK has optional fields; the Gateway reads \<^verbatim>\<open>inlineData\<close> and
  \<^verbatim>\<open>text\<close>. (\<^verbatim>\<open>text\<close> is a keyword of the theory language, hence the field name.)
\<close>

record part =
  inlineData :: "inline_image option"
  text_part :: "string option"

definition text_only :: "string \<Rightarrow> part" where
  "text_only s = \<lparr>inlineData = None, text_part = Some s\<rparr>"

definition inline_only :: "inline_image \<Rightarrow> part" where
  "inline_only i = \<lparr>inlineData = Some i, text_part = None\<rparr>"

text \<open>One turn of a request: \<^verbatim>\<open>{ role, parts }\<close>.\<close>

record turn =
  turn_role :: string
  turn_parts :: "part list"

text \<open>The \<^verbatim>\<open>config\<close> object of the streaming request; \<^verbatim>\<open>thinkingConfig\<close> is optional.\<close>

record config =
  systemInstruction :: string
  temperature :: real
  topP :: real
  topK :: nat
  thinkingBudget :: "nat option"

text \<open>The argument of \<^verbatim>\<open>ai.models.generateContentStream\<close>.\<close>

record stream_request =
  stream_model :: string
  stream_contents :: "turn list"
  stream_config :: config

text \<open>The argument of \<^verbatim>\<open>ai.models.generateContent\<close>: \<^verbatim>\<open>{ model, contents: { parts } }\<close>.\<close>

record edit_request =
  edit_model :: string
  edit_parts :: "part list"

text \<open>
  A caught JavaScript value, as far as the code reads it: its \<^verbatim>\<open>message\<close>, which may be
  missing.
\<close>

datatype js_error = JsError (message: "string option")

text \<open>
  A streamed chunk, read through \<^verbatim>\<open>c.text\<close> (which may be \<^verbatim>\<open>undefined\<close>). The provider's
  stream delivers some chunks and then either ends or throws; a call that throws at once
  is the stream without chunks that throws.
\<close>

datatype chunk = Chunk (chunk_text: "string option")

datatype stream_reply = StreamReply (chunks: "chunk list") (failure: "js_error option")

text \<open>
  The response of \<^verbatim>\<open>generateContent\<close>, as far as
  \<^verbatim>\<open>response.candidates?.[0]?.content?.parts\<close> reads it: every level may be missing.
\<close>

datatype resp_content = RespContent (resp_parts: "part list option")

datatype candidate = Candidate (cand_content: "resp_content option")

datatype response = Response (candidates: "candidate list option")

text \<open>
  What lies outside the repository: the environment variable, the provider behind the
  two SDK calls, and the canvas behind \<^verbatim>\<open>applyWatermark\<close>, which maps base64 data and a
  MIME type to base64 data.
\<close>

record world =
  API_KEY :: "string option"
  generateContentStream :: "stream_request \<Rightarrow> stream_reply"
  generateContent :: "edit_request \<Rightarrow> js_error + response"
  applyWatermark :: "string \<Rightarrow> string \<Rightarrow> string"

text \<open>A call that reached the network, with the request it sent.\<close>

datatype network_call = StreamCall stream_request | ContentCall edit_request

section \<open>The Model Gateway (services/geminiService.ts)\<close>

text \<open>
  \<^verbatim>\<open>getAIClient\<close> throws when \<^verbatim>\<open>process.env.API_KEY\<close> is falsy: unset or empty.
\<close>

definition getAIClient :: "world \<Rightarrow> js_error + unit" where
  "getAIClient w =
     (if API_KEY w = None \<or> API_KEY w = Some []
      then Inl (JsError (Some ''API Key is not configured in the environment.''))
      else Inr ())"

text \<open>The \<^verbatim>\<open>options\<close> of \<^verbatim>\<open>startChatStream\<close>; both fields are optional.\<close>

record options =
  thinking :: "bool option"
  image_opt :: "inline_image option"

definition select_model :: "options \<Rightarrow> string" where
  "select_model opts =
     (if thinking opts = Some True \<or> image_opt opts \<noteq> None
      then ''gemini-3-pro-preview'' else ''gemini-3-flash-preview'')"

definition formattedHistory :: "message list \<Rightarrow> turn list" where
  "formattedHistory history =
     map (\<lambda>msg. \<lparr>turn_role = (if role msg = USER then ''user'' else ''model''),
                 turn_parts = [text_only (content msg)]\<rparr>) history"

definition new_turn_parts :: "string \<Rightarrow> options \<Rightarrow> part list" where
  "new_turn_parts newMessage opts =
     (case image_opt opts of
        None \<Rightarrow> []
      | Some i \<Rightarrow> [inline_only \<lparr>data = data i, mimeType = mimeType i\<rparr>])
     @ [text_only newMessage]"

definition build_config :: "options \<Rightarrow> config" where
  "build_config opts =
     \<lparr>systemInstruction =
        ''You are Zuno, a helpful AI assistant. Format your responses with clear markdown. Be direct, intelligent, and helpful.'',
      temperature = 7 / 10, topP = 95 / 100, topK = 64,
      thinkingBudget = (if thinking opts = Some True then Some 32768 else None)\<rparr>"

definition build_stream_request :: "message list \<Rightarrow> string \<Rightarrow> options \<Rightarrow> stream_request" where
  "build_stream_request history newMessage opts =
     \<lparr>stream_model = select_model opts,
      stream_contents =
        map (\<lambda>h. \<lparr>turn_role = turn_role h, turn_parts = turn_parts h\<rparr>) (formattedHistory history)
        @ [\<lparr>turn_role = ''user'', turn_parts = new_turn_parts newMessage opts\<rparr>],
      stream_config = build_config opts\<rparr>"

text \<open>
  The \<^verbatim>\<open>for await\<close> loop: every chunk's text (\<^verbatim>\<open>c.text || ""\<close>) is added to
  \<^verbatim>\<open>fullText\<close> and handed to \<^verbatim>\<open>onChunk\<close>, which acts on the caller's state.
\<close>

fun consume :: "(string \<Rightarrow> 's \<Rightarrow> 's) \<Rightarrow> chunk list \<Rightarrow> string \<times> 's \<Rightarrow> string \<times> 's" where
  "consume onChunk [] (fullText, s) = (fullText, s)"
| "consume onChunk (c # cs) (fullText, s) =
     (let t = opt_str_or (chunk_text c) [] in consume onChunk cs (fullText @ t, onChunk t s))"

text \<open>The \<^verbatim>\<open>catch\<close> of \<^verbatim>\<open>startChatStream\<close>: one provider error is reworded, any other rethrown.\<close>

definition rethrow_stream_error :: "js_error \<Rightarrow> js_error" where
  "rethrow_stream_error e =
     (if (case message e of None \<Rightarrow> False | Some m \<Rightarrow> includes_str m ''entity was not found'')
      then JsError (Some ''The API configuration seems invalid. Please check your project settings.'')
      else e)"

text \<open>
  \<^verbatim>\<open>startChatStream\<close> returns the network calls it made, the caller's state after the
  callbacks, and the full text or the error thrown.
\<close>

definition startChatStream ::
  "world \<Rightarrow> message list \<Rightarrow> string \<Rightarrow> (string \<Rightarrow> 's \<Rightarrow> 's) \<Rightarrow> options \<Rightarrow> 's
     \<Rightarrow> network_call list \<times> 's \<times> (js_error + string)" where
  "startChatStream w history newMessage onChunk opts s =
     (case getAIClient w of
        Inl e \<Rightarrow> ([], s, Inl e)
      | Inr _ \<Rightarrow>
          (let req = build_stream_request history newMessage opts;
               reply = generateContentStream w req;
               (fullText, s') = consume onChunk (chunks reply) ([], s)
           in case failure reply of
                Some e \<Rightarrow> ([StreamCall req], s', Inl (rethrow_stream_error e))
              | None \<Rightarrow> ([StreamCall req], s', Inr fullText)))"

text \<open>The result of \<^verbatim>\<open>processImageTask\<close>: \<^verbatim>\<open>{ text, image }\<close>, the image possibly \<^verbatim>\<open>null\<close>.\<close>

record edit_result =
  result_text :: string
  result_image :: "inline_image option"

definition first_candidate_parts :: "response \<Rightarrow> part list option" where
  "first_candidate_parts r =
     (case candidates r of
        None \<Rightarrow> None
      | Some [] \<Rightarrow> None
      | Some (c # _) \<Rightarrow> (case cand_content c of None \<Rightarrow> None | Some k \<Rightarrow> resp_parts k))"

text \<open>The loop over the parts, on \<^verbatim>\<open>(resultText, resultImage)\<close>.\<close>

fun scan_parts :: "part list \<Rightarrow> string \<times> inline_image option \<Rightarrow> string \<times> inline_image option" where
  "scan_parts [] acc = acc"
| "scan_parts (p # ps) (resultText, resultImage) =
     (case inlineData p of
        Some b \<Rightarrow> scan_parts ps (resultText, Some \<lparr>data = data b, mimeType = mimeType b\<rparr>)
      | None \<Rightarrow>
          (case text_part p of
             Some t \<Rightarrow> if t \<noteq> [] then scan_parts ps (resultText @ t, resultImage)
                       else scan_parts ps (resultText, resultImage)
           | None \<Rightarrow> scan_parts ps (resultText, resultImage)))"

definition read_response :: "response \<Rightarrow> edit_result" where
  "read_response r =
     (let (resultText, resultImage) =
            (case first_candidate_parts r of
               None \<Rightarrow> ([], None)
             | Some ps \<Rightarrow> scan_parts ps ([], None))
      in \<lparr>result_text = str_or resultText ''Here is your edited image.'',
          result_image = resultImage\<rparr>)"

definition build_edit_request :: "string \<Rightarrow> inline_image option \<Rightarrow> edit_request" where
  "build_edit_request prompt imageData =
     \<lparr>edit_model = ''gemini-2.5-flash-image'',
      edit_parts =
        (case imageData of
           None \<Rightarrow> []
         | Some i \<Rightarrow> [inline_only \<lparr>data = data i, mimeType = mimeType i\<rparr>])
        @ [text_only prompt]\<rparr>"

definition processImageTask ::
  "world \<Rightarrow> string \<Rightarrow> inline_image option \<Rightarrow> network_call list \<times> (js_error + edit_result)" where
  "processImageTask w prompt imageData =
     (case getAIClient w of
        Inl e \<Rightarrow> ([], Inl e)
      | Inr _ \<Rightarrow>
          (let req = build_edit_request prompt imageData
           in case generateContent w req of
                Inl e \<Rightarrow> ([ContentCall req], Inl e)
              | Inr r \<Rightarrow> ([ContentCall req], Inr (read_response r))))"

section \<open>The application state (App.tsx)\<close>

text \<open>
  A JSON document. Numbers are kept to the integers, which is all the persisted
  transcript needs.
\<close>

datatype json =
    JNull
  | JBool bool
  | JNumber int
  | JString string
  | JArray "json list"
  | JObject "(string \<times> json) list"

text \<open>
  A string held by \<^verbatim>\<open>localStorage\<close>, classified by what the code can see of it: it is empty
  (falsy), or \<^verbatim>\<open>JSON.parse\<close> reads a document from it, or \<^verbatim>\<open>JSON.parse\<close> throws on it.
  The text that \<^verbatim>\<open>JSON.stringify\<close> writes for a document is read back by \<^verbatim>\<open>JSON.parse\<close>
  as that document.
\<close>

datatype stored_text = EmptyText | JsonText json | MalformedText

definition JSON_parse :: "stored_text \<Rightarrow> js_error + json" where
  "JSON_parse s =
     (case s of
        JsonText j \<Rightarrow> Inr j
      | _ \<Rightarrow> Inl (JsError (Some ''Unexpected token'')))"

definition STORAGE_KEY :: string where
  "STORAGE_KEY = ''zuno_chat_history''"

text \<open>
  The component's state (the \<^verbatim>\<open>useState\<close> cells), together with the browser state the
  component acts on: \<^verbatim>\<open>localStorage\<close>, and the \<^verbatim>\<open>confirm\<close> dialogs shown so far.
\<close>

record app_state =
  messages :: "message list"
  isLoading :: bool
  isStreaming :: bool
  isThinking :: bool
  error :: "string option"
  localStorage :: "string \<rightharpoonup> stored_text"
  prompts :: "string list"

text \<open>
  The clock readings of one \<^verbatim>\<open>handleSendMessage\<close>: \<^verbatim>\<open>Date.now()\<close> and \<^verbatim>\<open>new Date()\<close> for
  the user message, for the model message, and for the error message.
\<close>

record clock =
  now_user :: int
  date_user :: int
  now_model :: int
  date_model :: int
  now_error :: int
  date_error :: int

text \<open>Which Gateway operation a submission invoked, with its arguments.\<close>

datatype gateway_call =
    ProcessImageTask string "inline_image option"
  | StartChatStream "message list" string options

text \<open>
  The \<^verbatim>\<open>onChunk\<close> callback of the chat path, on \<^verbatim>\<open>streamContent\<close> and the state:
  \<^verbatim>\<open>streamContent += chunk\<close>, then the message with the placeholder's id gets the
  accumulated text.
\<close>

definition onChunk :: "string \<Rightarrow> string \<Rightarrow> string \<times> app_state \<Rightarrow> string \<times> app_state" where
  "onChunk modelMessageId chunk = (\<lambda>(streamContent, st).
     (let streamContent' = streamContent @ chunk
      in (streamContent',
          st\<lparr>messages :=
               map (\<lambda>msg. if id_msg msg = modelMessageId
                          then msg\<lparr>content := streamContent'\<rparr> else msg)
                   (messages st)\<rparr>)))"

text \<open>The \<^verbatim>\<open>catch\<close> block of \<^verbatim>\<open>handleSendMessage\<close>.\<close>

definition errorMessage :: "clock \<Rightarrow> js_error \<Rightarrow> message" where
  "errorMessage clk err =
     \<lparr>id_msg = number_toString (now_error clk),
      role = MODEL,
      content = ''**Error:** '' @
        opt_str_or (message err) ''I'm having trouble processing that request. Please try again.'',
      timestamp = Date (date_error clk),
      image_msg = None\<rparr>"

definition put_error :: "message \<Rightarrow> message list \<Rightarrow> message list" where
  "put_error em prev =
     (if prev \<noteq> [] \<and> role (last prev) = MODEL \<and> content (last prev) = []
      then butlast prev @ [em]
      else prev @ [em])"

definition catch_block :: "clock \<Rightarrow> js_error \<Rightarrow> app_state \<Rightarrow> app_state" where
  "catch_block clk err st =
     st\<lparr>error := Some (opt_str_or (message err) ''An unexpected error occurred.''),
        messages := put_error (errorMessage clk err) (messages st)\<rparr>"

definition finally_block :: "app_state \<Rightarrow> app_state" where
  "finally_block st = st\<lparr>isLoading := False, isStreaming := False\<rparr>"

text \<open>The user message of a submission.\<close>

definition userMessage :: "clock \<Rightarrow> string \<Rightarrow> inline_image option \<Rightarrow> message" where
  "userMessage clk txt img =
     \<lparr>id_msg = number_toString (now_user clk),
      role = USER,
      content = str_or txt (if img \<noteq> None then ''Analyze this image'' else []),
      timestamp = Date (date_user clk),
      image_msg = img\<rparr>"

definition modelMessageId :: "clock \<Rightarrow> string" where
  "modelMessageId clk = number_toString (now_model clk + 1)"

definition edit_prompt :: "string \<Rightarrow> string" where
  "edit_prompt txt = str_or txt ''Process this image''"

text \<open>
  The image-edit branch of the \<^verbatim>\<open>try\<close> block, entered in the state \<open>st\<close> that already holds
  the user message. It returns the state, the network calls, and the error thrown, if any.
\<close>

definition edit_branch ::
  "world \<Rightarrow> clock \<Rightarrow> string \<Rightarrow> inline_image option \<Rightarrow> app_state
     \<Rightarrow> app_state \<times> network_call list \<times> js_error option" where
  "edit_branch w clk txt img st =
     (case processImageTask w (edit_prompt txt) img of
        (net, Inl e) \<Rightarrow> (st, net, Some e)
      | (net, Inr resp) \<Rightarrow>
          (let finalImage =
                 (case result_image resp of
                    None \<Rightarrow> None
                  | Some fi \<Rightarrow> Some (fi\<lparr>data := applyWatermark w (data fi) (mimeType fi)\<rparr>));
               modelMessage =
                 \<lparr>id_msg = modelMessageId clk, role = MODEL, content = result_text resp,
                  timestamp = Date (date_model clk), image_msg = finalImage\<rparr>
           in (st\<lparr>messages := messages st @ [modelMessage]\<rparr>, net, None)))"

text \<open>
  The chat branch. \<open>snapshot\<close> is the \<^verbatim>\<open>messages\<close> of the render the handler was created
  in; \<^verbatim>\<open>historyForAPI.slice(0, -1)\<close> drops the user message again.
\<close>

definition initialModelMessage :: "clock \<Rightarrow> message" where
  "initialModelMessage clk =
     \<lparr>id_msg = modelMessageId clk, role = MODEL, content = [],
      timestamp = Date (date_model clk), image_msg = None\<rparr>"

definition chat_args ::
  "clock \<Rightarrow> string \<Rightarrow> inline_image option \<Rightarrow> bool \<Rightarrow> message list
     \<Rightarrow> message list \<times> string \<times> options" where
  "chat_args clk txt img thinkingNow snapshot =
     (let historyForAPI = snapshot @ [userMessage clk txt img]
      in (butlast historyForAPI,
          str_or txt ''Analyze the uploaded content'',
          \<lparr>thinking = Some thinkingNow, image_opt = img\<rparr>))"

definition chat_branch ::
  "world \<Rightarrow> clock \<Rightarrow> string \<Rightarrow> inline_image option \<Rightarrow> bool \<Rightarrow> message list \<Rightarrow> app_state
     \<Rightarrow> app_state \<times> network_call list \<times> js_error option" where
  "chat_branch w clk txt img thinkingNow snapshot st =
     (let st' = st\<lparr>messages := messages st @ [initialModelMessage clk],
                     isStreaming := True, isLoading := False\<rparr>;
          (history, newMessage, opts) = chat_args clk txt img thinkingNow snapshot
      in case startChatStream w history newMessage (onChunk (modelMessageId clk)) opts ([], st') of
           (net, (streamContent, st''), Inl e) \<Rightarrow> (st'', net, Some e)
         | (net, (streamContent, st''), Inr fullText) \<Rightarrow> (st'', net, None))"

text \<open>
  What one submission leaves behind: the state, the Gateway operation it invoked, and the
  network calls made.
\<close>

record send_result =
  state_after :: app_state
  gateway :: gateway_call
  network :: "network_call list"

definition handleSendMessage ::
  "world \<Rightarrow> clock \<Rightarrow> string \<Rightarrow> inline_image option \<Rightarrow> app_state \<Rightarrow> send_result" where
  "handleSendMessage w clk txt img st =
     (let st1 = st\<lparr>error := None\<rparr>;
          st2 = st1\<lparr>messages := messages st1 @ [userMessage clk txt img], isLoading := True\<rparr>;
          edit = (isEditRequest img (isThinking st) txt \<and> img \<noteq> None);
          (st3, net, thrown) =
            (if edit then edit_branch w clk txt img st2
             else chat_branch w clk txt img (isThinking st) (messages st) st2);
          st4 = (case thrown of None \<Rightarrow> st3 | Some err \<Rightarrow> catch_block clk err st3)
      in \<lparr>state_after = finally_block st4,
          gateway =
            (if edit then ProcessImageTask (edit_prompt txt) img
             else (case chat_args clk txt img (isThinking st) (messages st) of
                     (history, newMessage, opts) \<Rightarrow> StartChatStream history newMessage opts)),
          network = net\<rparr>)"

section \<open>Dates in the persisted form\<close>

text \<open>
  \<^verbatim>\<open>JSON.stringify\<close> writes a \<^verbatim>\<open>Date\<close> through \<^verbatim>\<open>Date.prototype.toJSON\<close>: the
  \<^verbatim>\<open>toISOString\<close> text \<^verbatim>\<open>YYYY-MM-DDTHH:mm:ss.sssZ\<close> of a finite time value, \<^verbatim>\<open>null\<close> for an
  Invalid Date. The definitions follow the Date arithmetic of ECMA-262: days since the
  epoch, the year of a day, the day within its year, month and date from tables.
\<close>

definition msPerDay :: int where
  "msPerDay = 86400000"

definition Day :: "int \<Rightarrow> int" where
  "Day t = t div msPerDay"

definition TimeWithinDay :: "int \<Rightarrow> int" where
  "TimeWithinDay t = t mod msPerDay"

definition DaysInYear :: "int \<Rightarrow> int" where
  "DaysInYear y =
     (if y mod 4 \<noteq> 0 then 365 else if y mod 100 \<noteq> 0 then 366
      else if y mod 400 \<noteq> 0 then 365 else 366)"

definition InLeapYear :: "int \<Rightarrow> int" where
  "InLeapYear y = (if DaysInYear y = 366 then 1 else 0)"

definition DayFromYear :: "int \<Rightarrow> int" where
  "DayFromYear y =
     365 * (y - 1970) + (y - 1969) div 4 - (y - 1901) div 100 + (y - 1601) div 400"

text \<open>
  The year of a day is the largest \<open>y\<close> with \<open>DayFromYear y \<le> d\<close>: searched downwards from
  an estimate that is not below it.
\<close>

function year_search :: "int \<Rightarrow> int \<Rightarrow> int" where
  "year_search y d = (if DayFromYear y \<le> d then y else year_search (y - 1) d)"
  by pat_completeness auto
termination
proof (relation "measure (\<lambda>(y, d). nat (DayFromYear y - d))")
  show "wf (measure (\<lambda>(y, d). nat (DayFromYear y - d)))"
    by simp
next
  fix y d :: int
  assume a: "\<not> DayFromYear y \<le> d"
  have 1: "(y - 1 - 1969) div 4 \<le> (y - 1969) div 4"
    by (rule zdiv_mono1) simp_all
  have 2: "(y - 1901) div 100 \<le> (y - 1 - 1901) div 100 + 1"
    by arith
  have 3: "(y - 1 - 1601) div 400 \<le> (y - 1601) div 400"
    by (rule zdiv_mono1) simp_all
  have lin: "a1 \<le> a2 \<Longrightarrow> b2 \<le> b1 + 1 \<Longrightarrow> c1 \<le> c2 \<Longrightarrow>
     365 * (y - 1 - 1970) + a1 - b1 + c1 < 365 * (y - 1970) + a2 - b2 + c2"
    for a1 a2 b1 b2 c1 c2 :: int
    by arith
  have "DayFromYear (y - 1) < DayFromYear y"
    unfolding DayFromYear_def by (rule lin [OF 1 2 3])
  with a show "((y - 1, d), (y, d)) \<in> measure (\<lambda>(y, d). nat (DayFromYear y - d))"
    by simp
qed

declare year_search.simps [simp del]

definition YearFromDay :: "int \<Rightarrow> int" where
  "YearFromDay d = year_search (1970 + (if 0 \<le> d then d div 365 else d div 366)) d"

definition MonthFromDay :: "int \<Rightarrow> int \<Rightarrow> int" where
  "MonthFromDay dayInYear leap =
     (if dayInYear < 31 then 0
      else if dayInYear < 59 + leap then 1
      else if dayInYear < 90 + leap then 2
      else if dayInYear < 120 + leap then 3
      else if dayInYear < 151 + leap then 4
      else if dayInYear < 181 + leap then 5
      else if dayInYear < 212 + leap then 6
      else if dayInYear < 243 + leap then 7
      else if dayInYear < 273 + leap then 8
      else if dayInYear < 304 + leap then 9
      else if dayInYear < 334 + leap then 10
      else 11)"

text \<open>The day within the year on which month \<open>m\<close> (from 0) begins.\<close>

definition month_start :: "int \<Rightarrow> int \<Rightarrow> int" where
  "month_start m leap =
     (if m = 0 then 0
      else if m = 1 then 31
      else if m = 2 then 59 + leap
      else if m = 3 then 90 + leap
      else if m = 4 then 120 + leap
      else if m = 5 then 151 + leap
      else if m = 6 then 181 + leap
      else if m = 7 then 212 + leap
      else if m = 8 then 243 + leap
      else if m = 9 then 273 + leap
      else if m = 10 then 304 + leap
      else 334 + leap)"

definition DateFromDay :: "int \<Rightarrow> int \<Rightarrow> int" where
  "DateFromDay dayInYear leap = dayInYear - month_start (MonthFromDay dayInYear leap) leap + 1"

text \<open>A number in \<open>k\<close> decimal digits, with leading zeros.\<close>

fun pad :: "nat \<Rightarrow> nat \<Rightarrow> string" where
  "pad 0 n = []"
| "pad (Suc k) n = pad k (n div 10) @ [digit_char (n mod 10)]"

text \<open>Four digits for the years 0 to 9999, otherwise a sign and six digits.\<close>

definition year_string :: "int \<Rightarrow> string" where
  "year_string y =
     (if 0 \<le> y \<and> y \<le> 9999 then pad 4 (nat y)
      else if y < 0 then CHR ''-'' # pad 6 (nat (- y))
      else CHR ''+'' # pad 6 (nat y))"

definition toISOString :: "int \<Rightarrow> string" where
  "toISOString t =
     (let d = Day t; y = YearFromDay d; dayInYear = d - DayFromYear y; leap = InLeapYear y;
          ms = TimeWithinDay t
      in year_string y @ ''-'' @ pad 2 (nat (MonthFromDay dayInYear leap + 1)) @ ''-''
         @ pad 2 (nat (DateFromDay dayInYear leap)) @ ''T''
         @ pad 2 (nat (ms div 3600000)) @ '':''
         @ pad 2 (nat ((ms div 60000) mod 60)) @ '':''
         @ pad 2 (nat ((ms div 1000) mod 60)) @ ''.''
         @ pad 3 (nat (ms mod 1000)) @ ''Z'')"

definition date_toJSON :: "js_date \<Rightarrow> json" where
  "date_toJSON d = (case d of Date t \<Rightarrow> JString (toISOString t) | InvalidDate \<Rightarrow> JNull)"

text \<open>
  \<^verbatim>\<open>TimeClip\<close>: a time value beyond 8.64e15 milliseconds from the epoch is NaN. Every
  \<^verbatim>\<open>Date\<close> the program creates has passed through it.
\<close>

definition TimeClip :: "int \<Rightarrow> js_date" where
  "TimeClip t = (if \<bar>t\<bar> \<le> 8640000000000000 then Date t else InvalidDate)"

text \<open>Reading decimal digits.\<close>

definition digit_value :: "char \<Rightarrow> nat option" where
  "digit_value c =
     (if (48::nat) \<le> of_char c \<and> of_char c \<le> (57::nat) then Some (of_char c - 48) else None)"

fun read_digits :: "nat \<Rightarrow> string \<Rightarrow> nat option" where
  "read_digits acc [] = Some acc"
| "read_digits acc (c # cs) =
     (case digit_value c of None \<Rightarrow> None | Some v \<Rightarrow> read_digits (10 * acc + v) cs)"

text \<open>The number of days of month \<open>m\<close> (from 0) in a year.\<close>

definition DaysInMonth :: "int \<Rightarrow> int \<Rightarrow> int" where
  "DaysInMonth m leap =
     (if m = 11 then 31 else month_start (m + 1) leap - month_start m leap)"

text \<open>
  \<^verbatim>\<open>MakeDay\<close>, \<^verbatim>\<open>MakeTime\<close> and \<^verbatim>\<open>MakeDate\<close> for fields within their ranges (the month from 0).
\<close>

definition MakeDay :: "int \<Rightarrow> int \<Rightarrow> int \<Rightarrow> int" where
  "MakeDay y m dt = DayFromYear y + month_start m (InLeapYear y) + dt - 1"

definition MakeTime :: "int \<Rightarrow> int \<Rightarrow> int \<Rightarrow> int \<Rightarrow> int" where
  "MakeTime h mi sec ms = h * 3600000 + mi * 60000 + sec * 1000 + ms"

definition MakeDate :: "int \<Rightarrow> int \<Rightarrow> int" where
  "MakeDate day time = day * msPerDay + time"

text \<open>
  The part of a date-time string after the year, \<^verbatim>\<open>-MM-DDTHH:mm:ss.sssZ\<close>, split at its
  fixed positions: the five separators and the \<^verbatim>\<open>Z\<close> must be in place.
\<close>

definition well_punctuated :: "string \<Rightarrow> bool" where
  "well_punctuated r =
     (length r = 20 \<and> r ! 0 = CHR ''-'' \<and> r ! 3 = CHR ''-'' \<and> r ! 6 = CHR ''T''
      \<and> r ! 9 = CHR '':'' \<and> r ! 12 = CHR '':'' \<and> r ! 15 = CHR ''.'' \<and> r ! 19 = CHR ''Z'')"

definition field :: "nat \<Rightarrow> nat \<Rightarrow> string \<Rightarrow> nat option" where
  "field pos len r = read_digits 0 (take len (drop pos r))"

text \<open>
  \<^verbatim>\<open>new Date(s)\<close> on a string. The model covers the complete UTC form of the date-time
  format with every field within its range, which is what \<^verbatim>\<open>toISOString\<close> writes; the
  result is \<open>None\<close> on every other string (shorter forms of the format, fields out of
  range, and the fallbacks that the language leaves to the implementation).
\<close>

definition parse_fields :: "int \<Rightarrow> nat \<Rightarrow> string \<Rightarrow> js_date option" where
  "parse_fields sign y r =
     (if \<not> well_punctuated r then None
      else case (field 1 2 r, field 4 2 r, field 7 2 r, field 10 2 r, field 13 2 r, field 16 3 r) of
        (Some mo, Some dt, Some h, Some mi, Some sec, Some ms) \<Rightarrow>
          (let year = sign * int y
           in if 1 \<le> mo \<and> mo \<le> 12 \<and> 1 \<le> dt
                 \<and> int dt \<le> DaysInMonth (int mo - 1) (InLeapYear year)
                 \<and> h \<le> 23 \<and> mi \<le> 59 \<and> sec \<le> 59
              then Some (TimeClip (MakeDate (MakeDay year (int mo - 1) (int dt))
                                            (MakeTime (int h) (int mi) (int sec) (int ms))))
              else None)
      | _ \<Rightarrow> None)"

definition Date_parse :: "string \<Rightarrow> js_date option" where
  "Date_parse s =
     (case s of
        [] \<Rightarrow> None
      | c # cs \<Rightarrow>
          if c = CHR ''+'' \<or> c = CHR ''-'' then
            (case read_digits 0 (take 6 cs) of
               None \<Rightarrow> None
             | Some y \<Rightarrow>
                 if length cs < 6 \<or> (c = CHR ''-'' \<and> y = 0) then None
                 else parse_fields (if c = CHR ''-'' then - 1 else 1) y (drop 6 cs))
          else
            (case read_digits 0 (take 4 s) of
               None \<Rightarrow> None
             | Some y \<Rightarrow> if length s < 4 then None else parse_fields 1 y (drop 4 s)))"

text \<open>
  \<^verbatim>\<open>new Date(msg.timestamp)\<close> on the parsed property: missing (\<^verbatim>\<open>undefined\<close>) gives an
  Invalid Date, \<^verbatim>\<open>null\<close> and booleans convert to numbers, a number is clipped, a string is
  parsed. Arrays and objects would be converted to strings first and are left out.
\<close>

definition new_Date :: "json option \<Rightarrow> js_date option" where
  "new_Date v =
     (case v of
        None \<Rightarrow> Some InvalidDate
      | Some JNull \<Rightarrow> Some (TimeClip 0)
      | Some (JBool b) \<Rightarrow> Some (TimeClip (if b then 1 else 0))
      | Some (JNumber n) \<Rightarrow> Some (TimeClip n)
      | Some (JString s) \<Rightarrow> Date_parse s
      | Some (JArray _) \<Rightarrow> None
      | Some (JObject _) \<Rightarrow> None)"

section \<open>Persistence (App.tsx)\<close>

text \<open>
  \<^verbatim>\<open>JSON.stringify(messages)\<close>: every message becomes an object of its defined
  properties; an \<^verbatim>\<open>undefined\<close> image is left out, the role is its enum string.
\<close>

definition role_value :: "role \<Rightarrow> string" where
  "role_value r = (case r of USER \<Rightarrow> ''user'' | MODEL \<Rightarrow> ''model'')"

definition image_toJSON :: "inline_image \<Rightarrow> json" where
  "image_toJSON i = JObject [(''data'', JString (data i)), (''mimeType'', JString (mimeType i))]"

definition message_toJSON :: "message \<Rightarrow> json" where
  "message_toJSON m =
     JObject ([(''id'', JString (id_msg m)),
               (''role'', JString (role_value (role m))),
               (''content'', JString (content m)),
               (''timestamp'', date_toJSON (timestamp m))]
              @ (case image_msg m of None \<Rightarrow> [] | Some i \<Rightarrow> [(''image'', image_toJSON i)]))"

definition JSON_stringify :: "message list \<Rightarrow> stored_text" where
  "JSON_stringify ms = JsonText (JArray (map message_toJSON ms))"

text \<open>The persistence effect, run after every change of \<^verbatim>\<open>messages\<close>.\<close>

definition persist_effect :: "app_state \<Rightarrow> app_state" where
  "persist_effect st =
     (if length (messages st) > 0
      then st\<lparr>localStorage := (localStorage st)(STORAGE_KEY \<mapsto> JSON_stringify (messages st))\<rparr>
      else st)"

text \<open>
  Reading a parsed object as a \<^verbatim>\<open>Message\<close>. \<^verbatim>\<open>JSON.parse\<close> keeps the last of several equal
  keys. The code does not validate what it parsed; \<open>None\<close> stands for a value that is
  outside the \<^verbatim>\<open>Message\<close> type (or whose date is outside the model), with which the
  program would go on all the same.
\<close>

definition property :: "(string \<times> json) list \<Rightarrow> string \<Rightarrow> json option" where
  "property kvs k = map_of (rev kvs) k"

definition role_of_json :: "json option \<Rightarrow> role option" where
  "role_of_json v =
     (case v of
        Some (JString s) \<Rightarrow>
          if s = ''user'' then Some USER else if s = ''model'' then Some MODEL else None
      | _ \<Rightarrow> None)"

definition string_of_json :: "json option \<Rightarrow> string option" where
  "string_of_json v = (case v of Some (JString s) \<Rightarrow> Some s | _ \<Rightarrow> None)"

definition image_of_json :: "json option \<Rightarrow> inline_image option option" where
  "image_of_json v =
     (case v of
        None \<Rightarrow> Some None
      | Some (JObject kvs) \<Rightarrow>
          (case (string_of_json (property kvs ''data''), string_of_json (property kvs ''mimeType'')) of
             (Some d, Some mt) \<Rightarrow> Some (Some \<lparr>data = d, mimeType = mt\<rparr>)
           | _ \<Rightarrow> None)
      | _ \<Rightarrow> None)"

text \<open>\<^verbatim>\<open>{ ...msg, timestamp: new Date(msg.timestamp) }\<close>.\<close>

definition hydrate_message :: "json \<Rightarrow> message option" where
  "hydrate_message j =
     (case j of
        JObject kvs \<Rightarrow>
          (case (string_of_json (property kvs ''id''), role_of_json (property kvs ''role''),
                 string_of_json (property kvs ''content''), new_Date (property kvs ''timestamp''),
                 image_of_json (property kvs ''image'')) of
             (Some i, Some r, Some c, Some t, Some im) \<Rightarrow>
               Some \<lparr>id_msg = i, role = r, content = c, timestamp = t, image_msg = im\<rparr>
           | _ \<Rightarrow> None)
      | _ \<Rightarrow> None)"

fun hydrate_all :: "json list \<Rightarrow> message list option" where
  "hydrate_all [] = Some []"
| "hydrate_all (j # js) =
     (case hydrate_message j of
        None \<Rightarrow> None
      | Some m \<Rightarrow> (case hydrate_all js of None \<Rightarrow> None | Some ms \<Rightarrow> Some (m # ms)))"

text \<open>
  The hydration effect, run once at startup. Nothing stored, an empty string, text that
  does not parse, and a document that is not an array (\<^verbatim>\<open>parsed.map\<close> throws, and the
  \<^verbatim>\<open>catch\<close> logs it) all leave the state as it is.
\<close>

definition hydrate_effect :: "app_state \<Rightarrow> app_state option" where
  "hydrate_effect st =
     (case localStorage st STORAGE_KEY of
        None \<Rightarrow> Some st
      | Some EmptyText \<Rightarrow> Some st
      | Some savedHistory \<Rightarrow>
          (case JSON_parse savedHistory of
             Inl err \<Rightarrow> Some st
           | Inr (JArray parsed) \<Rightarrow>
               (case hydrate_all parsed of
                  None \<Rightarrow> None
                | Some hydratedMessages \<Rightarrow> Some (st\<lparr>messages := hydratedMessages\<rparr>))
           | Inr _ \<Rightarrow> Some st))"

text \<open>The state of a freshly loaded page over a given \<^verbatim>\<open>localStorage\<close>.\<close>

definition initial_state :: "(string \<rightharpoonup> stored_text) \<Rightarrow> app_state" where
  "initial_state storage =
     \<lparr>messages = [], isLoading = False, isStreaming = False, isThinking = False,
      error = None, localStorage = storage, prompts = []\<rparr>"

text \<open>
  \<^verbatim>\<open>handleNewChat\<close>; \<open>answer\<close> is what the user replies if the \<^verbatim>\<open>confirm\<close> dialog is shown.
\<close>

definition handleNewChat :: "bool \<Rightarrow> app_state \<Rightarrow> app_state" where
  "handleNewChat answer st =
     (if length (messages st) = 0 then st
      else
        (let st' = st\<lparr>prompts := prompts st @ [''Start a new chat? Current history will be cleared.'']\<rparr>
         in if answer
            then st'\<lparr>messages := [], error := None,
                     localStorage := (localStorage st')(STORAGE_KEY := None)\<rparr>
            else st'))"

section \<open>Notions used in the statements\<close>

text \<open>
  Containing a keyword without regard to case: some stretch of the text equals the keyword
  once both are put in lower case (ASCII letters).
\<close>

definition lower_case :: "char \<Rightarrow> char" where
  "lower_case c =
     (if (65::nat) \<le> of_char c \<and> of_char c \<le> (90::nat) then char_of (of_char c + (32::nat)) else c)"

definition contains_ci :: "string \<Rightarrow> string \<Rightarrow> bool" where
  "contains_ci kw s = (\<exists>pre mid post. s = pre @ mid @ post \<and> map lower_case mid = map lower_case kw)"

definition edit_keywords :: "string list" where
  "edit_keywords = [''filter'', ''add'', ''remove'', ''change'', ''replace'', ''edit'', ''make'']"

text \<open>
  The content parts of a response are those of its first candidate. A part that carries
  inline data is an inline-data part; a part without inline data that carries text is a
  text part.
\<close>

definition response_parts :: "response \<Rightarrow> part list" where
  "response_parts r = (case first_candidate_parts r of None \<Rightarrow> [] | Some ps \<Rightarrow> ps)"

definition is_inline_part :: "part \<Rightarrow> bool" where
  "is_inline_part p = (inlineData p \<noteq> None)"

definition is_text_part :: "part \<Rightarrow> bool" where
  "is_text_part p = (inlineData p = None \<and> text_part p \<noteq> None)"

definition text_of :: "part \<Rightarrow> string" where
  "text_of p = (case text_part p of None \<Rightarrow> [] | Some t \<Rightarrow> t)"

definition all_text :: "part list \<Rightarrow> string" where
  "all_text ps = concat (map text_of (filter is_text_part ps))"

definition last_inline :: "part list \<Rightarrow> inline_image option" where
  "last_inline ps = (case filter is_inline_part ps of [] \<Rightarrow> None | q # qs \<Rightarrow> inlineData (last (q # qs)))"

text \<open>The provider's name for a role.\<close>

definition role_name :: "role \<Rightarrow> string" where
  "role_name r = (case r of USER \<Rightarrow> ''user'' | MODEL \<Rightarrow> ''model'')"

text \<open>The fragments of a stream are the texts of its chunks, a missing text read as empty.\<close>

definition fragments :: "chunk list \<Rightarrow> string list" where
  "fragments cs = map (\<lambda>c. opt_str_or (chunk_text c) []) cs"

text \<open>Overwriting the content of the messages with a given id.\<close>

definition set_content :: "string \<Rightarrow> string \<Rightarrow> message list \<Rightarrow> message list" where
  "set_content mid c ms = map (\<lambda>msg. if id_msg msg = mid then msg\<lparr>content := c\<rparr> else msg) ms"

text \<open>
  The state in which the chat path starts the stream: the user message and the empty
  placeholder are appended, the flags say "streaming".
\<close>

definition stream_start :: "clock \<Rightarrow> string \<Rightarrow> inline_image option \<Rightarrow> app_state \<Rightarrow> app_state" where
  "stream_start clk txt img st =
     (let st1 = st\<lparr>error := None\<rparr>;
          st2 = st1\<lparr>messages := messages st1 @ [userMessage clk txt img], isLoading := True\<rparr>
      in st2\<lparr>messages := messages st2 @ [initialModelMessage clk],
             isStreaming := True, isLoading := False\<rparr>)"

text \<open>When the \<^verbatim>\<open>catch\<close> block replaces the last message instead of appending.\<close>

definition replaces_placeholder :: "message list \<Rightarrow> bool" where
  "replaces_placeholder prev = (prev \<noteq> [] \<and> role (last prev) = MODEL \<and> content (last prev) = [])"

text \<open>
  The text that follows the year in a date-time string, from its six numbers.
\<close>

definition after_year :: "nat \<Rightarrow> nat \<Rightarrow> nat \<Rightarrow> nat \<Rightarrow> nat \<Rightarrow> nat \<Rightarrow> string" where
  "after_year mo dt h mi sec ms =
     ''-'' @ pad 2 mo @ ''-'' @ pad 2 dt @ ''T'' @ pad 2 h @ '':'' @ pad 2 mi @ '':''
     @ pad 2 sec @ ''.'' @ pad 3 ms @ ''Z''"

text \<open>
  A valid date: a time value, within the range that \<^verbatim>\<open>TimeClip\<close> admits.
\<close>

definition valid_date :: "js_date \<Rightarrow> bool" where
  "valid_date d = (case d of Date t \<Rightarrow> \<bar>t\<bar> \<le> 8640000000000000 | InvalidDate \<Rightarrow> False)"

text \<open>The two paths of a submission, read off the Gateway operation it invoked.\<close>

datatype path = ImageEditPath | ChatStreamPath

fun path_of :: "gateway_call \<Rightarrow> path" where
  "path_of (ProcessImageTask prompt img) = ImageEditPath"
| "path_of (StartChatStream history newMessage opts) = ChatStreamPath"

text \<open>Concrete inputs for the instances below.\<close>

definition example_image :: inline_image where
  "example_image = \<lparr>data = ''aGVsbG8='', mimeType = ''image/png''\<rparr>"

definition example_clock :: clock where
  "example_clock = \<lparr>now_user = 1730548800000, date_user = 1730548800000,
     now_model = 1730548800002, date_model = 1730548800002,
     now_error = 1730548800950, date_error = 1730548800950\<rparr>"

definition example_world :: world where
  "example_world =
     \<lparr>API_KEY = Some ''key'',
      generateContentStream =
        (\<lambda>req. StreamReply [Chunk (Some ''Hel''), Chunk (Some ''lo, ''), Chunk (Some ''world'')] None),
      generateContent = (\<lambda>req. Inr (Response None)),
      applyWatermark = (\<lambda>d mt. d)\<rparr>"

definition failing_stream_world :: world where
  "failing_stream_world =
     example_world\<lparr>generateContentStream := (\<lambda>req. StreamReply [] (Some (JsError (Some ''fetch failed''))))\<rparr>"

definition failing_edit_world :: world where
  "failing_edit_world =
     example_world\<lparr>generateContent := (\<lambda>req. Inl (JsError (Some ''quota exceeded'')))\<rparr>"

definition example_message :: message where
  "example_message =
     \<lparr>id_msg = ''1730548800000'', role = USER, content = ''Hi'',
      timestamp = Date 1730548800000, image_msg = None\<rparr>"

definition example_state :: app_state where
  "example_state =
     (initial_state [STORAGE_KEY \<mapsto> JSON_stringify [example_message]])\<lparr>messages := [example_message]\<rparr>"

definition undated_message :: message where
  "undated_message = example_message\<lparr>timestamp := InvalidDate\<rparr>"

definition hello_chunks :: "chunk list" where
  "hello_chunks = [Chunk (Some ''Hel''), Chunk (Some ''lo, ''), Chunk (Some ''world'')]"

definition example_response :: response where
  "example_response =
     Response (Some [Candidate (Some (RespContent (Some
       [text_only ''Done: '',
        inline_only \<lparr>data = ''Zmlyc3Q='', mimeType = ''image/png''\<rparr>,
        text_only ''a red hat.'',
        inline_only \<lparr>data = ''c2Vjb25k'', mimeType = ''image/jpeg''\<rparr>])))])"

section \<open>Properties\<close>

subsection \<open>Characters and the edit-intent pattern\<close>

lemmas char_eval = char_of_def bit_Suc_0_iff

lemma char_of_inj_small: "m < 256 \<Longrightarrow> n < 256 \<Longrightarrow> (char_of (m::nat) = char_of n) = (m = n)"
  by (metis of_char_of mod_less)

lemma fold_arith:
  fixes m n :: nat
  shows "((if 97 \<le> m \<and> m \<le> 122 then m - 32 else m) = (if 97 \<le> n \<and> n \<le> 122 then n - 32 else n))
       = ((if 65 \<le> m \<and> m \<le> 90 then m + 32 else m) = (if 65 \<le> n \<and> n \<le> 90 then n + 32 else n))"
  by (cases "97 \<le> m \<and> m \<le> 122"; cases "97 \<le> n \<and> n \<le> 122";
      cases "65 \<le> m \<and> m \<le> 90"; cases "65 \<le> n \<and> n \<le> 90"; simp; arith)

lemma canonicalize_code:
  "canonicalize c = char_of (if 97 \<le> (of_char c::nat) \<and> (of_char c::nat) \<le> 122
                             then of_char c - 32 else (of_char c :: nat))"
  by (simp add: canonicalize_def)

lemma lower_case_code:
  "lower_case c = char_of (if 65 \<le> (of_char c::nat) \<and> (of_char c::nat) \<le> 90
                           then of_char c + 32 else (of_char c :: nat))"
  by (simp add: lower_case_def)

lemma canonicalize_lower_case:
  "(canonicalize a = canonicalize b) = (lower_case a = lower_case b)"
proof -
  have ra: "(of_char a :: nat) < 256" by (rule nat_of_char_less_256)
  have rb: "(of_char b :: nat) < 256" by (rule nat_of_char_less_256)
  have 1: "(canonicalize a = canonicalize b) =
     ((if 97 \<le> (of_char a::nat) \<and> (of_char a::nat) \<le> 122 then of_char a - 32 else (of_char a :: nat))
      = (if 97 \<le> (of_char b::nat) \<and> (of_char b::nat) \<le> 122 then of_char b - 32 else (of_char b :: nat)))"
    unfolding canonicalize_code
    by (intro char_of_inj_small) (use ra rb in \<open>auto split: if_splits\<close>)
  have 2: "(lower_case a = lower_case b) =
     ((if 65 \<le> (of_char a::nat) \<and> (of_char a::nat) \<le> 90 then of_char a + 32 else (of_char a :: nat))
      = (if 65 \<le> (of_char b::nat) \<and> (of_char b::nat) \<le> 90 then of_char b + 32 else (of_char b :: nat)))"
    unfolding lower_case_code
    by (intro char_of_inj_small) (use ra rb in \<open>auto split: if_splits\<close>)
  show ?thesis unfolding 1 2 by (rule fold_arith)
qed

lemma matches_at_iff:
  "matches_at p s = (\<exists>mid post. s = mid @ post \<and> map lower_case mid = map lower_case p)"
proof (induction p s rule: matches_at.induct)
  case (1 s)
  then show ?case by simp
next
  case (2 p ps)
  then show ?case by simp
next
  case (3 p ps c cs)
  show ?case
  proof
    assume "matches_at (p # ps) (c # cs)"
    then have h: "canonicalize p = canonicalize c" and "matches_at ps cs" by simp_all
    then obtain mid post where "cs = mid @ post" "map lower_case mid = map lower_case ps"
      using 3 by auto
    then have "c # cs = (c # mid) @ post \<and> map lower_case (c # mid) = map lower_case (p # ps)"
      using h by (simp add: canonicalize_lower_case)
    then show "\<exists>mid post. c # cs = mid @ post \<and> map lower_case mid = map lower_case (p # ps)"
      by blast
  next
    assume "\<exists>mid post. c # cs = mid @ post \<and> map lower_case mid = map lower_case (p # ps)"
    then obtain mid post where m: "c # cs = mid @ post" "map lower_case mid = map lower_case (p # ps)"
      by blast
    then obtain m' where mid: "mid = c # m'" by (cases mid) auto
    with m have "cs = m' @ post" "map lower_case m' = map lower_case ps" "lower_case c = lower_case p"
      by simp_all
    then show "matches_at (p # ps) (c # cs)"
      using 3 by (auto simp: canonicalize_lower_case)
  qed
qed

lemma contains_ci_Nil: "contains_ci kw [] = (kw = [])"
  by (auto simp: contains_ci_def)

lemma contains_ci_Cons:
  "contains_ci kw (c # cs) = (matches_at kw (c # cs) \<or> contains_ci kw cs)"
proof
  assume "contains_ci kw (c # cs)"
  then obtain pre mid post where h: "c # cs = pre @ mid @ post" "map lower_case mid = map lower_case kw"
    by (auto simp: contains_ci_def)
  show "matches_at kw (c # cs) \<or> contains_ci kw cs"
  proof (cases pre)
    case Nil
    with h show ?thesis by (auto simp: matches_at_iff)
  next
    case (Cons x pre')
    with h have "cs = pre' @ mid @ post" by simp
    with h(2) show ?thesis by (auto simp: contains_ci_def)
  qed
next
  assume "matches_at kw (c # cs) \<or> contains_ci kw cs"
  then show "contains_ci kw (c # cs)"
  proof
    assume "matches_at kw (c # cs)"
    then obtain mid post where "c # cs = [] @ mid @ post" "map lower_case mid = map lower_case kw"
      by (auto simp: matches_at_iff)
    then show ?thesis unfolding contains_ci_def by blast
  next
    assume "contains_ci kw cs"
    then obtain pre mid post where "cs = pre @ mid @ post" "map lower_case mid = map lower_case kw"
      by (auto simp: contains_ci_def)
    then have "c # cs = (c # pre) @ mid @ post \<and> map lower_case mid = map lower_case kw" by simp
    then show ?thesis unfolding contains_ci_def by blast
  qed
qed

lemma regex_test_iff:
  "regex_test alts s = (\<exists>kw \<in> set alts. contains_ci kw s)"
proof (induction s)
  case Nil
  show ?case
    by (cases "[] \<in> set alts") (auto simp: list_ex_iff contains_ci_Nil matches_at_iff)
next
  case (Cons c cs)
  then show ?case by (auto simp: list_ex_iff contains_ci_Cons)
qed

lemma edit_intent_iff:
  "regex_test edit_pattern txt = (\<exists>kw \<in> set edit_keywords. contains_ci kw txt)"
  by (simp only: regex_test_iff edit_pattern_def edit_keywords_def)

subsection \<open>Routing\<close>

lemma gateway_handleSendMessage:
  "gateway (handleSendMessage w clk txt img st) =
     (if isEditRequest img (isThinking st) txt \<and> img \<noteq> None
      then ProcessImageTask (edit_prompt txt) img
      else StartChatStream (messages st) (str_or txt ''Analyze the uploaded content'')
             \<lparr>thinking = Some (isThinking st), image_opt = img\<rparr>)"
  by (simp add: handleSendMessage_def Let_def chat_args_def split: prod.splits)

text \<open>
  C1. A submission takes the image-edit path if and only if an image is attached,
  thinking mode is off, and the text contains one of the keywords filter, add, remove,
  change, replace, edit, make without regard to case; in every other case, so whenever one
  of the three conditions fails, it takes the chat-stream path.
\<close>

theorem routing_by_edit_intent:
  "path_of (gateway (handleSendMessage w clk txt img st)) =
     (if img \<noteq> None \<and> \<not> isThinking st \<and> (\<exists>kw \<in> set edit_keywords. contains_ci kw txt)
      then ImageEditPath else ChatStreamPath)"
  by (simp add: gateway_handleSendMessage isEditRequest_def edit_intent_iff)

theorem routing_by_edit_intent_witness:
  "path_of (gateway (handleSendMessage example_world example_clock ''Please ADD a hat''
       (Some example_image) (initial_state Map.empty))) = ImageEditPath
   \<and> path_of (gateway (handleSendMessage example_world example_clock ''Please ADD a hat''
       None (initial_state Map.empty))) = ChatStreamPath
   \<and> path_of (gateway (handleSendMessage example_world example_clock ''Please ADD a hat''
       (Some example_image) ((initial_state Map.empty)\<lparr>isThinking := True\<rparr>))) = ChatStreamPath
   \<and> path_of (gateway (handleSendMessage example_world example_clock ''What is this?''
       (Some example_image) (initial_state Map.empty))) = ChatStreamPath"
proof -
  have yes: "\<exists>kw \<in> set edit_keywords. contains_ci kw ''Please ADD a hat''"
    unfolding edit_intent_iff [symmetric]
    by (simp add: edit_pattern_def canonicalize_def char_eval)
  have no: "\<not> (\<exists>kw \<in> set edit_keywords. contains_ci kw ''What is this?'')"
    unfolding edit_intent_iff [symmetric]
    by (simp add: edit_pattern_def canonicalize_def char_eval)
  show ?thesis
    using yes no
      routing_by_edit_intent [of example_world example_clock "''Please ADD a hat''" "Some example_image" "initial_state Map.empty"]
      routing_by_edit_intent [of example_world example_clock "''Please ADD a hat''" None "initial_state Map.empty"]
      routing_by_edit_intent [of example_world example_clock "''Please ADD a hat''" "Some example_image" "(initial_state Map.empty)\<lparr>isThinking := True\<rparr>"]
      routing_by_edit_intent [of example_world example_clock "''What is this?''" "Some example_image" "initial_state Map.empty"]
    by (simp add: initial_state_def)
qed

subsection \<open>Reading the edit response\<close>

lemma all_text_Cons:
  "all_text (p # ps) = (if is_text_part p then text_of p else []) @ all_text ps"
  by (simp add: all_text_def)

lemma last_inline_Cons:
  "last_inline (p # ps) =
     (if filter is_inline_part ps = [] then (if is_inline_part p then inlineData p else None)
      else last_inline ps)"
  by (simp add: last_inline_def split: list.splits)

lemma scan_parts_acc:
  "scan_parts ps (t, im) =
     (t @ all_text ps, if filter is_inline_part ps = [] then im else last_inline ps)"
proof (induction ps arbitrary: t im)
  case Nil
  then show ?case by (simp add: all_text_def)
next
  case (Cons p ps)
  show ?case
  proof (cases "inlineData p")
    case None
    then have k: "\<not> is_inline_part p" by (simp add: is_inline_part_def)
    show ?thesis
    proof (cases "text_part p")
      case n: None
      with None have "\<not> is_text_part p" by (simp add: is_text_part_def)
      with None n k show ?thesis
        by (simp add: Cons all_text_Cons last_inline_Cons)
    next
      case (Some u)
      with None have "is_text_part p" "text_of p = u"
        by (simp_all add: is_text_part_def text_of_def)
      with None Some k show ?thesis
        by (simp add: Cons all_text_Cons last_inline_Cons)
    qed
  next
    case (Some b)
    then have k: "is_inline_part p" "\<not> is_text_part p"
      by (simp_all add: is_inline_part_def is_text_part_def)
    have b: "\<lparr>data = data b, mimeType = mimeType b\<rparr> = b" by simp
    from Some k show ?thesis
      by (simp add: b Cons all_text_Cons last_inline_Cons)
  qed
qed

lemma read_response_eq:
  "read_response r =
     \<lparr>result_text = (if all_text (response_parts r) = [] then ''Here is your edited image.''
                      else all_text (response_parts r)),
      result_image = last_inline (response_parts r)\<rparr>"
proof (cases "first_candidate_parts r")
  case None
  then show ?thesis
    by (simp add: read_response_def response_parts_def all_text_def last_inline_def str_or_def)
next
  case (Some ps)
  then show ?thesis
    by (simp add: read_response_def response_parts_def scan_parts_acc str_or_def last_inline_def
             split: list.splits)
qed

text \<open>
  C5. For every response of the provider, \<^verbatim>\<open>processImageTask\<close> (editImage) returns as text
  the concatenation, in order, of the text parts among the response's content parts, or
  the caption "Here is your edited image." when that concatenation is empty, in particular
  when there are no candidates at all; and it returns as image the last inline-data part,
  or no image if there is none.
\<close>

theorem editImage_result:
  "API_KEY w = Some k \<Longrightarrow> k \<noteq> [] \<Longrightarrow>
   generateContent w (build_edit_request prompt img) = Inr r \<Longrightarrow>
   snd (processImageTask w prompt img) =
     Inr \<lparr>result_text = (if all_text (response_parts r) = [] then ''Here is your edited image.''
                          else all_text (response_parts r)),
          result_image = last_inline (response_parts r)\<rparr>
   \<and> ((candidates r = None \<or> candidates r = Some []) \<longrightarrow>
        snd (processImageTask w prompt img) =
          Inr \<lparr>result_text = ''Here is your edited image.'', result_image = None\<rparr>)"
proof -
  assume k: "API_KEY w = Some k" "k \<noteq> []"
    and g: "generateContent w (build_edit_request prompt img) = Inr r"
  have 1: "snd (processImageTask w prompt img) = Inr (read_response r)"
    using k g by (simp add: processImageTask_def getAIClient_def)
  have 2: "candidates r = None \<or> candidates r = Some [] \<Longrightarrow> response_parts r = []"
    by (auto simp: response_parts_def first_candidate_parts_def)
  show ?thesis
    using 1 2 by (auto simp: read_response_eq all_text_def last_inline_def)
qed

theorem editImage_result_witness:
  "snd (processImageTask (example_world\<lparr>generateContent := (\<lambda>req. Inr example_response)\<rparr>)
         ''add a hat'' (Some example_image)) =
     Inr \<lparr>result_text = ''Done: a red hat.'',
          result_image = Some \<lparr>data = ''c2Vjb25k'', mimeType = ''image/jpeg''\<rparr>\<rparr>
   \<and> snd (processImageTask example_world ''add a hat'' (Some example_image)) =
     Inr \<lparr>result_text = ''Here is your edited image.'', result_image = None\<rparr>"
proof -
  have a: "API_KEY (example_world\<lparr>generateContent := (\<lambda>req. Inr example_response)\<rparr>) = Some ''key''"
    by (simp add: example_world_def)
  have b: "API_KEY example_world = Some ''key''"
    by (simp add: example_world_def)
  have n: "''key'' \<noteq> []" by simp
  have g: "generateContent (example_world\<lparr>generateContent := (\<lambda>req. Inr example_response)\<rparr>)
             (build_edit_request ''add a hat'' (Some example_image)) = Inr example_response"
    by simp
  have h: "generateContent example_world (build_edit_request ''add a hat'' (Some example_image))
             = Inr (Response None)"
    by (simp add: example_world_def)
  show ?thesis
    using editImage_result [OF a n g] editImage_result [OF b n h]
    by (simp add: example_response_def response_parts_def first_candidate_parts_def all_text_def
          last_inline_def is_text_part_def is_inline_part_def text_of_def text_only_def
          inline_only_def)
qed

subsection \<open>The Gateway's requests\<close>

text \<open>
  C6. \<^verbatim>\<open>startChatStream\<close> (streamChat) selects the reasoning model exactly when the thinking
  option is true or an image is attached, and the fast model otherwise; the request it
  sends carries that model.
\<close>

theorem model_selection:
  "stream_model (build_stream_request history newMessage opts) =
     (if thinking opts = Some True \<or> image_opt opts \<noteq> None
      then ''gemini-3-pro-preview'' else ''gemini-3-flash-preview'')
   \<and> (API_KEY w = Some k \<and> k \<noteq> [] \<longrightarrow>
        fst (startChatStream w history newMessage cb opts s) =
          [StreamCall (build_stream_request history newMessage opts)])"
  by (simp add: build_stream_request_def select_model_def startChatStream_def getAIClient_def
        Let_def split: prod.splits option.splits)

theorem model_selection_witness:
  "fst (startChatStream example_world [] ''hello'' (\<lambda>t s. s) \<lparr>thinking = Some False, image_opt = None\<rparr> ())
     = [StreamCall (build_stream_request [] ''hello'' \<lparr>thinking = Some False, image_opt = None\<rparr>)]
   \<and> stream_model (build_stream_request [] ''hello'' \<lparr>thinking = Some False, image_opt = None\<rparr>)
     = ''gemini-3-flash-preview''
   \<and> stream_model (build_stream_request [] ''hello'' \<lparr>thinking = Some True, image_opt = None\<rparr>)
     = ''gemini-3-pro-preview''
   \<and> stream_model (build_stream_request [] ''hello'' \<lparr>thinking = None, image_opt = Some example_image\<rparr>)
     = ''gemini-3-pro-preview''"
  using model_selection [of "[]" "''hello''" "\<lparr>thinking = Some False, image_opt = None\<rparr>" example_world "''key''" "\<lambda>t s. s" "()"]
    model_selection [of "[]" "''hello''" "\<lparr>thinking = Some True, image_opt = None\<rparr>" example_world "''key''" "\<lambda>t s. s" "()"]
    model_selection [of "[]" "''hello''" "\<lparr>thinking = None, image_opt = Some example_image\<rparr>" example_world "''key''" "\<lambda>t s. s" "()"]
  by (simp add: example_world_def)

text \<open>
  C9. Without an API credential (unset or empty), both Gateway operations fail with the
  error "API Key is not configured in the environment." and make no network call.
\<close>

theorem no_key_fails_before_network:
  "API_KEY w = None \<or> API_KEY w = Some [] \<Longrightarrow>
   startChatStream w history newMessage cb opts s =
     ([], s, Inl (JsError (Some ''API Key is not configured in the environment.'')))
   \<and> processImageTask w prompt img =
     ([], Inl (JsError (Some ''API Key is not configured in the environment.'')))"
  by (auto simp: startChatStream_def processImageTask_def getAIClient_def)

theorem no_key_fails_before_network_witness:
  "startChatStream (example_world\<lparr>API_KEY := None\<rparr>) [] ''hello'' (\<lambda>t s. s)
       \<lparr>thinking = Some False, image_opt = None\<rparr> () =
     ([], (), Inl (JsError (Some ''API Key is not configured in the environment.'')))
   \<and> processImageTask (example_world\<lparr>API_KEY := Some []\<rparr>) ''add a hat'' (Some example_image) =
     ([], Inl (JsError (Some ''API Key is not configured in the environment.'')))"
  using no_key_fails_before_network [of "example_world\<lparr>API_KEY := None\<rparr>" "[]" "''hello''" "\<lambda>t s. s"
          "\<lparr>thinking = Some False, image_opt = None\<rparr>" "()" "''add a hat''" "Some example_image"]
    no_key_fails_before_network [of "example_world\<lparr>API_KEY := Some []\<rparr>" "[]" "''hello''" "\<lambda>t s. s"
          "\<lparr>thinking = Some False, image_opt = None\<rparr>" "()" "''add a hat''" "Some example_image"]
  by simp

text \<open>
  C10. The request of \<^verbatim>\<open>startChatStream\<close> represents every message of the history by its
  role and its text alone: images of earlier messages do not reach the request, and only
  the new turn, the last one, can carry an inline-data part.
\<close>

theorem history_text_only:
  "butlast (stream_contents (build_stream_request history newMessage opts)) =
     map (\<lambda>msg. \<lparr>turn_role = role_name (role msg),
                 turn_parts = [\<lparr>inlineData = None, text_part = Some (content msg)\<rparr>]\<rparr>) history
   \<and> last (stream_contents (build_stream_request history newMessage opts)) =
       \<lparr>turn_role = ''user'', turn_parts = new_turn_parts newMessage opts\<rparr>
   \<and> stream_contents (build_stream_request (map (\<lambda>msg. msg\<lparr>image_msg := None\<rparr>) history) newMessage opts)
       = stream_contents (build_stream_request history newMessage opts)
   \<and> (\<forall>t \<in> set (butlast (stream_contents (build_stream_request history newMessage opts))).
         \<forall>p \<in> set (turn_parts t). inlineData p = None)"
  by (auto simp: build_stream_request_def formattedHistory_def text_only_def role_name_def comp_def
           split: role.splits)

subsection \<open>Streaming updates\<close>

text \<open>
  C8. A fragment delivery changes only the message with the placeholder's id: the
  transcript keeps its length and its order, and every entry with another id is unchanged.
\<close>

theorem onChunk_frame:
  "onChunk mid chunk (streamContent, st) = (streamContent', st') \<Longrightarrow>
   length (messages st') = length (messages st)
   \<and> map id_msg (messages st') = map id_msg (messages st)
   \<and> map role (messages st') = map role (messages st)
   \<and> map timestamp (messages st') = map timestamp (messages st)
   \<and> map image_msg (messages st') = map image_msg (messages st)
   \<and> (\<forall>i < length (messages st).
         id_msg (messages st ! i) \<noteq> mid \<longrightarrow> messages st' ! i = messages st ! i)"
  by (auto simp: onChunk_def Let_def comp_def)

lemma set_content_twice: "set_content mid c2 (set_content mid c1 ms) = set_content mid c2 ms"
  by (induction ms) (simp_all add: set_content_def)

lemma set_content_role: "map role (set_content mid c ms) = map role ms"
  by (induction ms) (simp_all add: set_content_def)

lemma set_content_id: "map id_msg (set_content mid c ms) = map id_msg ms"
  by (induction ms) (simp_all add: set_content_def)

lemma set_content_fresh: "mid \<notin> set (map id_msg ms) \<Longrightarrow> set_content mid c ms = ms"
  by (induction ms) (auto simp: set_content_def)

lemma set_content_snoc:
  "set_content mid c (ms @ [m]) =
     set_content mid c ms @ [if id_msg m = mid then m\<lparr>content := c\<rparr> else m]"
  by (simp add: set_content_def)

lemma onChunk_eq:
  "onChunk mid t (sc, st) = (sc @ t, st\<lparr>messages := set_content mid (sc @ t) (messages st)\<rparr>)"
  by (simp add: onChunk_def set_content_def Let_def)

lemma consume_onChunk:
  "consume (onChunk mid) cs (ft, sc, st) =
     (ft @ concat (fragments cs), sc @ concat (fragments cs),
      if cs = [] then st
      else st\<lparr>messages := set_content mid (sc @ concat (fragments cs)) (messages st)\<rparr>)"
proof (induction cs arbitrary: ft sc st)
  case Nil
  then show ?case by (simp add: fragments_def)
next
  case (Cons c cs)
  show ?case
    by (cases "cs = []")
       (simp_all add: Cons onChunk_eq fragments_def set_content_twice Let_def)
qed

lemma consume_append:
  "consume f (xs @ ys) acc = consume f ys (consume f xs acc)"
proof (induction xs arbitrary: acc)
  case Nil
  then show ?case by (cases acc) simp
next
  case (Cons x xs)
  then show ?case by (cases acc) (simp add: Let_def)
qed

lemma stream_state_messages:
  "messages (snd (snd (consume (onChunk (modelMessageId clk)) cs ([], [], stream_start clk txt img st)))) =
     (if cs = [] then messages st @ [userMessage clk txt img, initialModelMessage clk]
      else set_content (modelMessageId clk) (concat (fragments cs))
             (messages st @ [userMessage clk txt img])
           @ [(initialModelMessage clk)\<lparr>content := concat (fragments cs)\<rparr>])"
  by (simp add: consume_onChunk stream_start_def set_content_snoc initialModelMessage_def
        set_content_def)

lemma stream_state_last:
  "last (messages (snd (snd (consume (onChunk (modelMessageId clk)) cs ([], [], stream_start clk txt img st)))))
     = (initialModelMessage clk)\<lparr>content := concat (fragments cs)\<rparr>"
  by (simp add: stream_state_messages fragments_def initialModelMessage_def)

lemma stream_state_roles:
  "map role (messages (snd (snd (consume (onChunk (modelMessageId clk)) cs ([], [], stream_start clk txt img st)))))
     = map role (messages st) @ [USER, MODEL]"
  by (simp add: stream_state_messages set_content_role userMessage_def initialModelMessage_def)

lemma chat_branch_eq:
  assumes "API_KEY w = Some k" "k \<noteq> []"
  shows "chat_branch w clk txt img (isThinking st) (messages st)
           (st\<lparr>error := None, messages := messages st @ [userMessage clk txt img], isLoading := True\<rparr>) =
     (let req = build_stream_request (messages st) (str_or txt ''Analyze the uploaded content'')
                  \<lparr>thinking = Some (isThinking st), image_opt = img\<rparr>;
          reply = generateContentStream w req;
          stN = snd (snd (consume (onChunk (modelMessageId clk)) (chunks reply) ([], [], stream_start clk txt img st)))
      in (stN, [StreamCall req], map_option rethrow_stream_error (failure reply)))"
  using assms
  by (simp add: chat_branch_def chat_args_def startChatStream_def getAIClient_def Let_def
        stream_start_def split: prod.splits option.splits)

lemma handleSendMessage_chat:
  assumes "\<not> (isEditRequest img (isThinking st) txt \<and> img \<noteq> None)"
    and "API_KEY w = Some k" "k \<noteq> []"
  shows "state_after (handleSendMessage w clk txt img st) =
     (let reply = generateContentStream w (build_stream_request (messages st)
                    (str_or txt ''Analyze the uploaded content'')
                    \<lparr>thinking = Some (isThinking st), image_opt = img\<rparr>);
          stN = snd (snd (consume (onChunk (modelMessageId clk)) (chunks reply) ([], [], stream_start clk txt img st)))
      in finally_block (case failure reply of
                          None \<Rightarrow> stN
                        | Some e \<Rightarrow> catch_block clk (rethrow_stream_error e) stN))"
proof -
  have e: "(isEditRequest img (isThinking st) txt \<and> img \<noteq> None) = False"
    using assms(1) by simp
  show ?thesis
    unfolding handleSendMessage_def Let_def e if_False
    by (simp add: chat_branch_eq [OF assms(2,3)] Let_def split: option.splits)
qed

text \<open>
  C2. On the chat path with a stream that completes: the loop over the chunks passes
  through the state reached on the first \<open>n\<close> of them, and in that state the placeholder,
  the last message, holds the concatenation of the first \<open>n\<close> fragments in arrival order.
  The state the submission leaves is the one reached on all chunks (with the flags reset):
  the submission has added one USER and one MODEL message, and the MODEL message, the
  last, holds the concatenation of all fragments. When no earlier message carries the
  placeholder's id the transcript is the old one followed by exactly these two messages.
  The instance below runs the fragments "Hel", "lo, ", "world".
\<close>

theorem streaming_accumulation:
  assumes "\<not> (isEditRequest img (isThinking st) txt \<and> img \<noteq> None)"
    and "API_KEY w = Some k" and "k \<noteq> []"
    and "generateContentStream w (build_stream_request (messages st)
           (str_or txt ''Analyze the uploaded content'')
           \<lparr>thinking = Some (isThinking st), image_opt = img\<rparr>) = StreamReply cs None"
  shows "consume (onChunk (modelMessageId clk)) cs ([], [], stream_start clk txt img st) =
           consume (onChunk (modelMessageId clk)) (drop n cs)
             (consume (onChunk (modelMessageId clk)) (take n cs) ([], [], stream_start clk txt img st))
     \<and> last (messages (snd (snd (consume (onChunk (modelMessageId clk)) (take n cs)
                ([], [], stream_start clk txt img st))))) =
         (initialModelMessage clk)\<lparr>content := concat (take n (fragments cs))\<rparr>
     \<and> state_after (handleSendMessage w clk txt img st) =
         finally_block (snd (snd (consume (onChunk (modelMessageId clk)) cs
                ([], [], stream_start clk txt img st))))
     \<and> map role (messages (state_after (handleSendMessage w clk txt img st))) =
         map role (messages st) @ [USER, MODEL]
     \<and> last (messages (state_after (handleSendMessage w clk txt img st))) =
         (initialModelMessage clk)\<lparr>content := concat (fragments cs)\<rparr>
     \<and> (modelMessageId clk \<notin> set (map id_msg (messages st @ [userMessage clk txt img])) \<longrightarrow>
          messages (state_after (handleSendMessage w clk txt img st)) =
            messages st @ [userMessage clk txt img,
                           (initialModelMessage clk)\<lparr>content := concat (fragments cs)\<rparr>])"
proof -
  have 1: "consume (onChunk (modelMessageId clk)) cs ([], [], stream_start clk txt img st) =
           consume (onChunk (modelMessageId clk)) (drop n cs)
             (consume (onChunk (modelMessageId clk)) (take n cs) ([], [], stream_start clk txt img st))"
    using consume_append [of "onChunk (modelMessageId clk)" "take n cs" "drop n cs"] by simp
  have 2: "last (messages (snd (snd (consume (onChunk (modelMessageId clk)) (take n cs)
                ([], [], stream_start clk txt img st))))) =
         (initialModelMessage clk)\<lparr>content := concat (take n (fragments cs))\<rparr>"
    by (simp add: stream_state_last fragments_def take_map)
  have 3: "state_after (handleSendMessage w clk txt img st) =
         finally_block (snd (snd (consume (onChunk (modelMessageId clk)) cs
                ([], [], stream_start clk txt img st))))"
    using handleSendMessage_chat [OF assms(1,2,3), of clk] assms(4) by (simp add: Let_def)
  have 4: "map role (messages (state_after (handleSendMessage w clk txt img st))) =
         map role (messages st) @ [USER, MODEL]"
    unfolding 3 by (simp add: finally_block_def stream_state_roles)
  have 5: "last (messages (state_after (handleSendMessage w clk txt img st))) =
         (initialModelMessage clk)\<lparr>content := concat (fragments cs)\<rparr>"
    unfolding 3 by (simp add: finally_block_def stream_state_last)
  have 6: "messages (state_after (handleSendMessage w clk txt img st)) =
            messages st @ [userMessage clk txt img,
                           (initialModelMessage clk)\<lparr>content := concat (fragments cs)\<rparr>]"
    if "modelMessageId clk \<notin> set (map id_msg (messages st @ [userMessage clk txt img]))"
    unfolding 3 using set_content_fresh [OF that]
    by (simp add: finally_block_def stream_state_messages fragments_def initialModelMessage_def)
  show ?thesis using 1 2 3 4 5 6 by blast
qed

lemma example_ids:
  "modelMessageId example_clock = ''1730548800003''"
  "id_msg (userMessage example_clock txt img) = ''1730548800000''"
  by (simp_all add: modelMessageId_def userMessage_def example_clock_def number_toString_def
        digit_char_def char_eval)

theorem streaming_accumulation_witness:
  "content (last (messages (snd (snd (consume (onChunk (modelMessageId example_clock))
       (take 1 hello_chunks) ([], [], stream_start example_clock ''Hi'' None (initial_state Map.empty)))))))
     = ''Hel''
   \<and> content (last (messages (snd (snd (consume (onChunk (modelMessageId example_clock))
       (take 2 hello_chunks) ([], [], stream_start example_clock ''Hi'' None (initial_state Map.empty)))))))
     = ''Hello, ''
   \<and> content (last (messages (snd (snd (consume (onChunk (modelMessageId example_clock))
       (take 3 hello_chunks) ([], [], stream_start example_clock ''Hi'' None (initial_state Map.empty)))))))
     = ''Hello, world''
   \<and> messages (state_after (handleSendMessage example_world example_clock ''Hi'' None
         (initial_state Map.empty))) =
       [userMessage example_clock ''Hi'' None,
        (initialModelMessage example_clock)\<lparr>content := ''Hello, world''\<rparr>]
   \<and> filter (\<lambda>m. role m = MODEL)
         (messages (state_after (handleSendMessage example_world example_clock ''Hi'' None
            (initial_state Map.empty)))) =
       [(initialModelMessage example_clock)\<lparr>content := ''Hello, world''\<rparr>]"
proof -
  have r: "\<not> (isEditRequest None (isThinking (initial_state Map.empty)) ''Hi'' \<and> None \<noteq> (None :: inline_image option))"
    by simp
  have k: "API_KEY example_world = Some ''key''" "''key'' \<noteq> []"
    by (simp_all add: example_world_def)
  have g: "generateContentStream example_world
             (build_stream_request (messages (initial_state Map.empty))
                (str_or ''Hi'' ''Analyze the uploaded content'')
                \<lparr>thinking = Some (isThinking (initial_state Map.empty)), image_opt = None\<rparr>)
           = StreamReply hello_chunks None"
    by (simp add: example_world_def hello_chunks_def)
  have f: "fragments hello_chunks = [''Hel'', ''lo, '', ''world'']"
    by (simp add: fragments_def hello_chunks_def opt_str_or_def str_or_def)
  have fresh: "modelMessageId example_clock \<notin>
      set (map id_msg (messages (initial_state Map.empty) @ [userMessage example_clock ''Hi'' None]))"
    by (simp add: example_ids initial_state_def)
  have u: "role (userMessage example_clock ''Hi'' None) = USER"
    by (simp add: userMessage_def)
  have m: "role (initialModelMessage example_clock) = MODEL"
    by (simp add: initialModelMessage_def)
  note A = streaming_accumulation [OF r k g, of example_clock]
  note A2 = A [THEN conjunct2, THEN conjunct1]
  note A6 = A [of 3, THEN conjunct2, THEN conjunct2, THEN conjunct2, THEN conjunct2, THEN conjunct2]
  have final: "messages (state_after (handleSendMessage example_world example_clock ''Hi'' None
         (initial_state Map.empty))) =
       [userMessage example_clock ''Hi'' None,
        (initialModelMessage example_clock)\<lparr>content := ''Hello, world''\<rparr>]"
    using A6 fresh by (simp add: f initial_state_def)
  show ?thesis
    unfolding final using A2 [of 1] A2 [of 2] A2 [of 3] u m
    by (simp add: f)
qed

theorem onChunk_frame_witness:
  "messages (snd (onChunk (modelMessageId example_clock) ''Hel''
       ([], stream_start example_clock ''Hi'' None example_state))) ! 0 = example_message
   \<and> messages (snd (onChunk (modelMessageId example_clock) ''Hel''
       ([], stream_start example_clock ''Hi'' None example_state))) ! 1 = userMessage example_clock ''Hi'' None
   \<and> length (messages (snd (onChunk (modelMessageId example_clock) ''Hel''
       ([], stream_start example_clock ''Hi'' None example_state)))) = 3"
proof -
  obtain sc st' where o: "onChunk (modelMessageId example_clock) ''Hel''
       ([], stream_start example_clock ''Hi'' None example_state) = (sc, st')"
    by (cases "onChunk (modelMessageId example_clock) ''Hel''
       ([], stream_start example_clock ''Hi'' None example_state)") simp
  have m: "messages (stream_start example_clock ''Hi'' None example_state) =
      [example_message, userMessage example_clock ''Hi'' None, initialModelMessage example_clock]"
    by (simp add: stream_start_def example_state_def)
  have i0: "id_msg example_message \<noteq> modelMessageId example_clock"
    by (simp add: example_ids example_message_def)
  have i1: "id_msg (userMessage example_clock ''Hi'' None) \<noteq> modelMessageId example_clock"
    by (simp add: example_ids)
  show ?thesis
    using onChunk_frame [OF o] i0 i1 by (simp add: o m)
qed

theorem history_text_only_witness:
  "stream_contents (build_stream_request
       [userMessage example_clock ''what is this'' (Some example_image),
        (initialModelMessage example_clock)\<lparr>content := ''A cat.''\<rparr>]
       ''and this?'' \<lparr>thinking = Some False, image_opt = Some example_image\<rparr>) =
     [\<lparr>turn_role = ''user'', turn_parts = [\<lparr>inlineData = None, text_part = Some ''what is this''\<rparr>]\<rparr>,
      \<lparr>turn_role = ''model'', turn_parts = [\<lparr>inlineData = None, text_part = Some ''A cat.''\<rparr>]\<rparr>,
      \<lparr>turn_role = ''user'',
       turn_parts = [\<lparr>inlineData = Some example_image, text_part = None\<rparr>,
                     \<lparr>inlineData = None, text_part = Some ''and this?''\<rparr>]\<rparr>]"
proof -
  note A = history_text_only [of "[userMessage example_clock ''what is this'' (Some example_image),
        (initialModelMessage example_clock)\<lparr>content := ''A cat.''\<rparr>]"
       "''and this?''" "\<lparr>thinking = Some False, image_opt = Some example_image\<rparr>"]
  have ne: "stream_contents (build_stream_request
       [userMessage example_clock ''what is this'' (Some example_image),
        (initialModelMessage example_clock)\<lparr>content := ''A cat.''\<rparr>]
       ''and this?'' \<lparr>thinking = Some False, image_opt = Some example_image\<rparr>) \<noteq> []"
    by (simp add: build_stream_request_def)
  have i: "\<lparr>data = data example_image, mimeType = mimeType example_image\<rparr> = example_image"
    by simp
  have b: "butlast (stream_contents (build_stream_request
       [userMessage example_clock ''what is this'' (Some example_image),
        (initialModelMessage example_clock)\<lparr>content := ''A cat.''\<rparr>]
       ''and this?'' \<lparr>thinking = Some False, image_opt = Some example_image\<rparr>)) =
     [\<lparr>turn_role = ''user'', turn_parts = [\<lparr>inlineData = None, text_part = Some ''what is this''\<rparr>]\<rparr>,
      \<lparr>turn_role = ''model'', turn_parts = [\<lparr>inlineData = None, text_part = Some ''A cat.''\<rparr>]\<rparr>]"
    using A [THEN conjunct1]
    by (simp add: userMessage_def initialModelMessage_def role_name_def str_or_def)
  have l: "last (stream_contents (build_stream_request
       [userMessage example_clock ''what is this'' (Some example_image),
        (initialModelMessage example_clock)\<lparr>content := ''A cat.''\<rparr>]
       ''and this?'' \<lparr>thinking = Some False, image_opt = Some example_image\<rparr>)) =
      \<lparr>turn_role = ''user'',
       turn_parts = [\<lparr>inlineData = Some example_image, text_part = None\<rparr>,
                     \<lparr>inlineData = None, text_part = Some ''and this?''\<rparr>]\<rparr>"
    using A [THEN conjunct2, THEN conjunct1]
    by (simp add: new_turn_parts_def inline_only_def text_only_def i)
  show ?thesis
    using append_butlast_last_id [OF ne] unfolding b l by simp
qed

subsection \<open>Errors\<close>

lemma errorMessage_role: "role (errorMessage clk err) = MODEL"
  by (simp add: errorMessage_def)

lemma errorMessage_content:
  "content (errorMessage clk err) =
     ''**Error:** '' @ (case message err of
                          Some m \<Rightarrow> if m \<noteq> [] then m
                                    else ''I'm having trouble processing that request. Please try again.''
                        | None \<Rightarrow> ''I'm having trouble processing that request. Please try again.'')"
  by (simp add: errorMessage_def opt_str_or_def str_or_def split: option.splits)

lemma catch_block_messages:
  "messages (catch_block clk err st) =
     (if replaces_placeholder (messages st) then butlast (messages st) @ [errorMessage clk err]
      else messages st @ [errorMessage clk err])"
  by (simp add: catch_block_def put_error_def replaces_placeholder_def)

lemma catch_block_length:
  "length (messages (catch_block clk err st)) =
     (if replaces_placeholder (messages st) then length (messages st)
      else length (messages st) + 1)"
  by (auto simp: catch_block_messages replaces_placeholder_def)

lemma handleSendMessage_edit:
  assumes "isEditRequest img (isThinking st) txt \<and> img \<noteq> None"
    and "API_KEY w = Some k" "k \<noteq> []"
    and "generateContent w (build_edit_request (edit_prompt txt) img) = Inl e"
  shows "state_after (handleSendMessage w clk txt img st) =
     finally_block (catch_block clk e
       (st\<lparr>error := None, messages := messages st @ [userMessage clk txt img], isLoading := True\<rparr>))"
proof -
  have e: "(isEditRequest img (isThinking st) txt \<and> img \<noteq> None) = True"
    using assms(1) by simp
  show ?thesis
    unfolding handleSendMessage_def Let_def e if_True
    using assms(2,3,4)
    by (simp add: edit_branch_def processImageTask_def getAIClient_def Let_def)
qed

text \<open>
  C3, as the code has it. A failed Gateway call yields a MODEL message whose content is
  "**Error:** " followed by the error's message if that is present and not empty, and by
  the text "I'm having trouble processing that request. Please try again." otherwise. If
  the last transcript entry is a MODEL message with empty content, the error message
  takes its place and the number of messages is unchanged; otherwise it is appended and
  the number grows by one. So a chat stream that fails before any fragment leaves as many
  messages as there were when the stream started, the placeholder replaced; a failed
  edit call leaves one more message than after the user message was appended.
\<close>

theorem error_reconciliation:
  "role (errorMessage clk err) = MODEL
   \<and> content (errorMessage clk err) =
       ''**Error:** '' @ (case message err of
                            Some m \<Rightarrow> if m \<noteq> [] then m
                                      else ''I'm having trouble processing that request. Please try again.''
                          | None \<Rightarrow> ''I'm having trouble processing that request. Please try again.'')
   \<and> messages (catch_block clk err st) =
       (if messages st \<noteq> [] \<and> role (last (messages st)) = MODEL \<and> content (last (messages st)) = []
        then butlast (messages st) @ [errorMessage clk err]
        else messages st @ [errorMessage clk err])
   \<and> length (messages (catch_block clk err st)) =
       (if messages st \<noteq> [] \<and> role (last (messages st)) = MODEL \<and> content (last (messages st)) = []
        then length (messages st) else length (messages st) + 1)
   \<and> (\<not> (isEditRequest img (isThinking st) txt \<and> img \<noteq> None) \<and> API_KEY w = Some k \<and> k \<noteq> []
        \<and> generateContentStream w (build_stream_request (messages st)
             (str_or txt ''Analyze the uploaded content'')
             \<lparr>thinking = Some (isThinking st), image_opt = img\<rparr>) = StreamReply [] (Some e) \<longrightarrow>
        messages (state_after (handleSendMessage w clk txt img st)) =
          messages st @ [userMessage clk txt img, errorMessage clk (rethrow_stream_error e)]
        \<and> length (messages (state_after (handleSendMessage w clk txt img st))) =
            length (messages (stream_start clk txt img st)))
   \<and> (isEditRequest img (isThinking st) txt \<and> img \<noteq> None \<and> API_KEY w = Some k \<and> k \<noteq> []
        \<and> generateContent w (build_edit_request (edit_prompt txt) img) = Inl e \<longrightarrow>
        messages (state_after (handleSendMessage w clk txt img st)) =
          messages st @ [userMessage clk txt img, errorMessage clk e]
        \<and> length (messages (state_after (handleSendMessage w clk txt img st))) =
            length (messages st @ [userMessage clk txt img]) + 1)"
proof -
  have c1: "role (errorMessage clk err) = MODEL"
    by (rule errorMessage_role)
  have c2: "content (errorMessage clk err) =
       ''**Error:** '' @ (case message err of
                            Some m \<Rightarrow> if m \<noteq> [] then m
                                      else ''I'm having trouble processing that request. Please try again.''
                          | None \<Rightarrow> ''I'm having trouble processing that request. Please try again.'')"
    by (rule errorMessage_content)
  have c3: "messages (catch_block clk err st) =
       (if messages st \<noteq> [] \<and> role (last (messages st)) = MODEL \<and> content (last (messages st)) = []
        then butlast (messages st) @ [errorMessage clk err]
        else messages st @ [errorMessage clk err])"
    by (simp add: catch_block_messages replaces_placeholder_def)
  have c4: "length (messages (catch_block clk err st)) =
       (if messages st \<noteq> [] \<and> role (last (messages st)) = MODEL \<and> content (last (messages st)) = []
        then length (messages st) else length (messages st) + 1)"
    by (simp add: catch_block_length replaces_placeholder_def)
  have c5: "\<not> (isEditRequest img (isThinking st) txt \<and> img \<noteq> None) \<and> API_KEY w = Some k \<and> k \<noteq> []
        \<and> generateContentStream w (build_stream_request (messages st)
             (str_or txt ''Analyze the uploaded content'')
             \<lparr>thinking = Some (isThinking st), image_opt = img\<rparr>) = StreamReply [] (Some e) \<longrightarrow>
        messages (state_after (handleSendMessage w clk txt img st)) =
          messages st @ [userMessage clk txt img, errorMessage clk (rethrow_stream_error e)]
        \<and> length (messages (state_after (handleSendMessage w clk txt img st))) =
            length (messages (stream_start clk txt img st))"
  proof (intro impI, elim conjE)
    assume h: "\<not> (isEditRequest img (isThinking st) txt \<and> img \<noteq> None)" "API_KEY w = Some k" "k \<noteq> []"
      "generateContentStream w (build_stream_request (messages st)
             (str_or txt ''Analyze the uploaded content'')
             \<lparr>thinking = Some (isThinking st), image_opt = img\<rparr>) = StreamReply [] (Some e)"
    show "messages (state_after (handleSendMessage w clk txt img st)) =
          messages st @ [userMessage clk txt img, errorMessage clk (rethrow_stream_error e)]
        \<and> length (messages (state_after (handleSendMessage w clk txt img st))) =
            length (messages (stream_start clk txt img st))"
      using handleSendMessage_chat [OF h(1,2,3), of clk] h(4)
      by (simp add: Let_def finally_block_def catch_block_messages replaces_placeholder_def
            stream_start_def initialModelMessage_def butlast_append)
  qed
  have c6: "isEditRequest img (isThinking st) txt \<and> img \<noteq> None \<and> API_KEY w = Some k \<and> k \<noteq> []
        \<and> generateContent w (build_edit_request (edit_prompt txt) img) = Inl e \<longrightarrow>
        messages (state_after (handleSendMessage w clk txt img st)) =
          messages st @ [userMessage clk txt img, errorMessage clk e]
        \<and> length (messages (state_after (handleSendMessage w clk txt img st))) =
            length (messages st @ [userMessage clk txt img]) + 1"
  proof (intro impI, elim conjE)
    assume h: "isEditRequest img (isThinking st) txt" "img \<noteq> None" "API_KEY w = Some k" "k \<noteq> []"
      "generateContent w (build_edit_request (edit_prompt txt) img) = Inl e"
    show "messages (state_after (handleSendMessage w clk txt img st)) =
          messages st @ [userMessage clk txt img, errorMessage clk e]
        \<and> length (messages (state_after (handleSendMessage w clk txt img st))) =
            length (messages st @ [userMessage clk txt img]) + 1"
      using handleSendMessage_edit [OF conjI [OF h(1,2)] h(3,4,5), of clk]
      by (simp add: finally_block_def catch_block_messages replaces_placeholder_def userMessage_def)
  qed
  show ?thesis
    by (intro conjI) (fact c1, fact c2, fact c3, fact c4, fact c5, fact c6)
qed

theorem error_reconciliation_witness:
  "messages (state_after (handleSendMessage failing_stream_world example_clock ''Hi'' None
       (initial_state Map.empty))) =
     [userMessage example_clock ''Hi'' None,
      errorMessage example_clock (JsError (Some ''fetch failed''))]
   \<and> content (errorMessage example_clock (JsError (Some ''fetch failed''))) = ''**Error:** fetch failed''
   \<and> length (messages (stream_start example_clock ''Hi'' None (initial_state Map.empty))) = 2
   \<and> messages (state_after (handleSendMessage failing_edit_world example_clock ''add a hat''
       (Some example_image) (initial_state Map.empty))) =
     [userMessage example_clock ''add a hat'' (Some example_image),
      errorMessage example_clock (JsError (Some ''quota exceeded''))]"
proof -
  note A = error_reconciliation [of example_clock "JsError (Some ''fetch failed'')" "initial_state Map.empty"
      None "''Hi''" failing_stream_world "''key''" "JsError (Some ''fetch failed'')"]
  note B = error_reconciliation [of example_clock "JsError (Some ''quota exceeded'')" "initial_state Map.empty"
      "Some example_image" "''add a hat''" failing_edit_world "''key''" "JsError (Some ''quota exceeded'')"]
  have yes: "regex_test edit_pattern ''add a hat''"
    by (simp add: edit_pattern_def canonicalize_def char_eval)
  have e: "isEditRequest (Some example_image) (isThinking (initial_state Map.empty)) ''add a hat''"
    using yes by (simp add: isEditRequest_def initial_state_def)
  have r: "rethrow_stream_error (JsError (Some ''fetch failed'')) = JsError (Some ''fetch failed'')"
    by (simp add: rethrow_stream_error_def)
  have a5: "messages (state_after (handleSendMessage failing_stream_world example_clock ''Hi'' None
       (initial_state Map.empty))) =
     [userMessage example_clock ''Hi'' None,
      errorMessage example_clock (JsError (Some ''fetch failed''))]"
    using A [THEN conjunct2, THEN conjunct2, THEN conjunct2, THEN conjunct2, THEN conjunct1]
    by (simp add: r failing_stream_world_def example_world_def initial_state_def)
  have a2: "content (errorMessage example_clock (JsError (Some ''fetch failed''))) = ''**Error:** fetch failed''"
    using A [THEN conjunct2, THEN conjunct1] by simp
  have b6: "messages (state_after (handleSendMessage failing_edit_world example_clock ''add a hat''
       (Some example_image) (initial_state Map.empty))) =
     [userMessage example_clock ''add a hat'' (Some example_image),
      errorMessage example_clock (JsError (Some ''quota exceeded''))]"
    using B [THEN conjunct2, THEN conjunct2, THEN conjunct2, THEN conjunct2, THEN conjunct2] e
    by (simp add: failing_edit_world_def example_world_def initial_state_def)
  have l: "length (messages (stream_start example_clock ''Hi'' None (initial_state Map.empty))) = 2"
    by (simp add: stream_start_def initial_state_def)
  show ?thesis using a5 a2 l b6 by blast
qed

text \<open>
  The claim as stated, "**Error:** " followed by the error's message, fails for an error
  whose message is the empty string.
\<close>

theorem error_message_counterexample:
  "content (errorMessage example_clock (JsError (Some []))) \<noteq> ''**Error:** '' @ []"
  by (simp add: errorMessage_def opt_str_or_def str_or_def)

subsection \<open>New chat\<close>

text \<open>
  C7. "New chat" on an empty transcript is a no-op: the state, with the transcript, the
  stored entry and the list of confirmation dialogs shown, is unchanged. On a non-empty
  transcript the dialog is shown; if the user confirms, the transcript is cleared and the
  stored entry deleted, and the persistence effect that follows leaves it deleted; if the
  user declines, transcript and storage stay as they were.
\<close>

theorem new_chat:
  "(messages st = [] \<longrightarrow> handleNewChat answer st = st)
   \<and> (messages st \<noteq> [] \<longrightarrow>
        prompts (handleNewChat answer st) =
          prompts st @ [''Start a new chat? Current history will be cleared.''])
   \<and> (messages st \<noteq> [] \<and> answer \<longrightarrow>
        messages (handleNewChat answer st) = []
        \<and> localStorage (handleNewChat answer st) = (localStorage st)(STORAGE_KEY := None)
        \<and> localStorage (handleNewChat answer st) STORAGE_KEY = None
        \<and> persist_effect (handleNewChat answer st) = handleNewChat answer st)
   \<and> (messages st \<noteq> [] \<and> \<not> answer \<longrightarrow>
        messages (handleNewChat answer st) = messages st
        \<and> localStorage (handleNewChat answer st) = localStorage st)"
  by (simp add: handleNewChat_def persist_effect_def Let_def)

theorem new_chat_witness:
  "handleNewChat True (initial_state Map.empty) = initial_state Map.empty
   \<and> prompts (handleNewChat True (initial_state Map.empty)) = []
   \<and> localStorage example_state STORAGE_KEY = Some (JSON_stringify [example_message])
   \<and> messages (handleNewChat True example_state) = []
   \<and> localStorage (handleNewChat True example_state) STORAGE_KEY = None
   \<and> prompts (handleNewChat True example_state) = [''Start a new chat? Current history will be cleared.'']
   \<and> messages (handleNewChat False example_state) = [example_message]
   \<and> localStorage (handleNewChat False example_state) STORAGE_KEY = Some (JSON_stringify [example_message])"
  using new_chat [of "initial_state Map.empty" True] new_chat [of example_state True]
    new_chat [of example_state False]
  by (simp add: initial_state_def example_state_def)


subsection \<open>Dates: writing and reading back\<close>

lemma digit_value_digit_char: "d < 10 \<Longrightarrow> digit_value (digit_char d) = Some d"
  by (simp add: digit_value_def digit_char_def of_char_of)

lemma digit_char_not_sign: "d < 10 \<Longrightarrow> digit_char d \<noteq> CHR ''+'' \<and> digit_char d \<noteq> CHR ''-''"
proof -
  assume d: "d < 10"
  have "digit_value (CHR ''+'') = None" "digit_value (CHR ''-'') = None"
    by (simp_all add: digit_value_def)
  with digit_value_digit_char [OF d] show ?thesis by auto
qed

lemma length_pad: "length (pad k n) = k"
  by (induction k arbitrary: n) simp_all

lemma read_digits_append:
  "read_digits acc (xs @ ys) =
     (case read_digits acc xs of None \<Rightarrow> None | Some a \<Rightarrow> read_digits a ys)"
  by (induction xs arbitrary: acc) (simp_all split: option.splits)

lemma read_digits_pad: "read_digits acc (pad k n) = Some (acc * 10 ^ k + n mod 10 ^ k)"
proof (induction k arbitrary: n acc)
  case 0
  then show ?case by simp
next
  case (Suc k)
  have m: "n mod (10 * 10 ^ k) = 10 * (n div 10 mod 10 ^ k) + n mod 10"
    by (rule mod_mult2_eq)
  show ?case
    by (simp add: read_digits_append Suc digit_value_digit_char m algebra_simps)
qed

lemma read_pad: "n < 10 ^ k \<Longrightarrow> read_digits 0 (pad k n) = Some n"
  by (simp add: read_digits_pad)

lemma div_step:
  fixes a c :: int
  assumes "1 < c"
  shows "(a + 1) div c = a div c + (if (a + 1) mod c = 0 then 1 else 0)"
proof -
  have r: "0 \<le> a mod c" "a mod c < c" using assms by simp_all
  have e: "c * (a div c) + a mod c = a" by (rule mult_div_mod_eq)
  show ?thesis
  proof (cases "a mod c = c - 1")
    case True
    have "(a div c + 1) * c = c * (a div c) + c"
      by (simp add: algebra_simps)
    with True e have "a + 1 = (a div c + 1) * c"
      by linarith
    then have "(a + 1) div c = a div c + 1" "(a + 1) mod c = 0"
      using assms by simp_all
    then show ?thesis by simp
  next
    case False
    then have lt: "a mod c + 1 < c" using r by linarith
    have s: "a + 1 = a mod c + 1 + (a div c) * c"
      using e by (simp add: algebra_simps)
    have "(a mod c + 1 + (a div c) * c) div c = (a mod c + 1) div c + a div c"
      using assms by (subst div_mult_self1) simp_all
    also have "\<dots> = a div c"
      using lt r by (simp add: div_pos_pos_trivial)
    finally have "(a mod c + 1 + (a div c) * c) div c = a div c" .
    then have d: "(a + 1) div c = a div c" by (subst s)
    have "(a mod c + 1 + (a div c) * c) mod c = (a mod c + 1) mod c"
      by (rule mod_mult_self1)
    also have "\<dots> = a mod c + 1"
      using lt r by (simp add: mod_pos_pos_trivial)
    finally have "(a mod c + 1 + (a div c) * c) mod c = a mod c + 1" .
    then have "(a + 1) mod c = a mod c + 1" by (subst s)
    then have "(a + 1) mod c \<noteq> 0" using r by linarith
    with d show ?thesis by simp
  qed
qed

lemma mod_shift: "((y::int) - k * c) mod c = y mod c"
proof -
  have "(y - k * c) mod c = (y + (- k) * c) mod c" by simp
  also have "\<dots> = y mod c" by (rule mod_mult_self1)
  finally show ?thesis .
qed

lemma step4: "((y::int) - 1968) div 4 = (y - 1969) div 4 + (if y mod 4 = 0 then 1 else 0)"
proof -
  have m: "(y - 1968) mod 4 = y mod 4" using mod_shift [of y 492 4] by simp
  have "y - 1969 + 1 = y - 1968" by simp
  with div_step [of 4 "y - 1969"] m show ?thesis by simp
qed

lemma step100: "((y::int) - 1900) div 100 = (y - 1901) div 100 + (if y mod 100 = 0 then 1 else 0)"
proof -
  have m: "(y - 1900) mod 100 = y mod 100" using mod_shift [of y 19 100] by simp
  have "y - 1901 + 1 = y - 1900" by simp
  with div_step [of 100 "y - 1901"] m show ?thesis by simp
qed

lemma step400: "((y::int) - 1600) div 400 = (y - 1601) div 400 + (if y mod 400 = 0 then 1 else 0)"
proof -
  have m: "(y - 1600) mod 400 = y mod 400" using mod_shift [of y 4 400] by simp
  have "y - 1601 + 1 = y - 1600" by simp
  with div_step [of 400 "y - 1601"] m show ?thesis by simp
qed

lemma mod_100_4: "(y::int) mod 100 = 0 \<Longrightarrow> y mod 4 = 0"
proof -
  assume "y mod 100 = 0"
  then have "100 dvd y" by (simp add: dvd_eq_mod_eq_0)
  moreover have "(4::int) dvd 100" by simp
  ultimately have "4 dvd y" by (rule dvd_trans [rotated])
  then show ?thesis by (simp add: dvd_eq_mod_eq_0)
qed

lemma mod_400_100: "(y::int) mod 400 = 0 \<Longrightarrow> y mod 100 = 0"
proof -
  assume "y mod 400 = 0"
  then have "400 dvd y" by (simp add: dvd_eq_mod_eq_0)
  moreover have "(100::int) dvd 400" by simp
  ultimately have "100 dvd y" by (rule dvd_trans [rotated])
  then show ?thesis by (simp add: dvd_eq_mod_eq_0)
qed

lemma DayFromYear_step: "DayFromYear (y + 1) = DayFromYear y + DaysInYear y"
proof -
  have a: "y + 1 - 1969 = y - 1968" "y + 1 - 1901 = y - 1900" "y + 1 - 1601 = y - 1600"
    "y + 1 - 1970 = y - 1970 + 1"
    by simp_all
  show ?thesis
    unfolding DayFromYear_def DaysInYear_def a step4 step100 step400
    using mod_100_4 [of y] mod_400_100 [of y]
    by (cases "y mod 4 = 0"; cases "y mod 100 = 0"; cases "y mod 400 = 0") simp_all
qed

lemma DaysInYear_leap: "DaysInYear y = 365 + InLeapYear y"
  by (simp add: InLeapYear_def DaysInYear_def)

lemma InLeapYear_range: "InLeapYear y = 0 \<or> InLeapYear y = 1"
  by (simp add: InLeapYear_def)

lemma DaysInYear_bounds: "365 \<le> DaysInYear y" "DaysInYear y \<le> 366"
  by (simp_all add: DaysInYear_def)

lemma DayFromYear_1970: "DayFromYear 1970 = 0"
  by (simp add: DayFromYear_def)

lemma DayFromYear_ge: "0 \<le> j \<Longrightarrow> 365 * j \<le> DayFromYear (1970 + j)"
proof (induction j rule: int_ge_induct)
  case base
  then show ?case by (simp add: DayFromYear_1970)
next
  case (step i)
  have "DayFromYear (1970 + (i + 1)) = DayFromYear (1970 + i) + DaysInYear (1970 + i)"
    using DayFromYear_step [of "1970 + i"] by (simp add: add.assoc)
  with step DaysInYear_bounds(1) [of "1970 + i"] show ?case by simp
qed

lemma DayFromYear_le: "j \<le> 0 \<Longrightarrow> 366 * j \<le> DayFromYear (1970 + j) \<and> DayFromYear (1970 + j) \<le> 365 * j"
proof (induction j rule: int_le_induct)
  case base
  then show ?case by (simp add: DayFromYear_1970)
next
  case (step i)
  have "DayFromYear (1970 + i) = DayFromYear (1970 + (i - 1)) + DaysInYear (1970 + (i - 1))"
    using DayFromYear_step [of "1970 + (i - 1)"] by (simp add: algebra_simps)
  with step DaysInYear_bounds [of "1970 + (i - 1)"] show ?case by simp
qed

lemma year_search_correct:
  "d < DayFromYear (y0 + 1) \<Longrightarrow>
   DayFromYear (year_search y0 d) \<le> d \<and> d < DayFromYear (year_search y0 d + 1)"
proof (induction y0 d rule: year_search.induct)
  case (1 y d)
  show ?case
  proof (cases "DayFromYear y \<le> d")
    case True
    with 1(2) show ?thesis by (simp add: year_search.simps [of y d])
  next
    case False
    then have "d < DayFromYear (y - 1 + 1)" by simp
    with 1(1) [OF False] False show ?thesis by (simp add: year_search.simps [of y d])
  qed
qed

lemma estimate_above: "d < DayFromYear (1970 + (if 0 \<le> d then d div 365 else d div 366) + 1)"
proof (cases "0 \<le> d")
  case True
  have j: "0 \<le> d div 365 + 1" using True by (simp add: pos_imp_zdiv_nonneg_iff)
  have "d < 365 * (d div 365 + 1)"
    using mult_div_mod_eq [of 365 d] pos_mod_bound [of 365 d] by simp
  also have "\<dots> \<le> DayFromYear (1970 + (d div 365 + 1))" by (rule DayFromYear_ge [OF j])
  finally show ?thesis using True by (simp add: add.assoc)
next
  case False
  then have "d div 366 < 0" by (simp add: div_neg_pos_less0)
  then have j: "d div 366 + 1 \<le> 0" by simp
  have "d < 366 * (d div 366 + 1)"
    using mult_div_mod_eq [of 366 d] pos_mod_bound [of 366 d] by simp
  also have "\<dots> \<le> DayFromYear (1970 + (d div 366 + 1))"
    using DayFromYear_le [OF j] by simp
  finally show ?thesis using False by (simp add: add.assoc)
qed

lemma YearFromDay_correct:
  "DayFromYear (YearFromDay d) \<le> d \<and> d < DayFromYear (YearFromDay d) + DaysInYear (YearFromDay d)"
  using year_search_correct [OF estimate_above [of d]]
  by (simp add: YearFromDay_def DayFromYear_step)

lemma YearFromDay_range:
  assumes "\<bar>d\<bar> \<le> 100000000"
  shows "\<bar>YearFromDay d\<bar> \<le> 999999"
proof -
  let ?y = "YearFromDay d"
  have lo: "DayFromYear ?y \<le> d" and hi: "d < DayFromYear (?y + 1)"
    using YearFromDay_correct [of d] by (simp_all add: DayFromYear_step)
  have "?y \<le> 999999"
  proof (rule ccontr)
    assume "\<not> ?y \<le> 999999"
    then have y: "0 \<le> ?y - 1970" "998029 < ?y - 1970" by simp_all
    have "1970 + (?y - 1970) = ?y" by simp
    with DayFromYear_ge [OF y(1)] have "365 * (?y - 1970) \<le> DayFromYear ?y" by simp
    with y(2) lo assms show False by simp
  qed
  moreover have "- 999999 \<le> ?y"
  proof (rule ccontr)
    assume "\<not> - 999999 \<le> ?y"
    then have y: "?y + 1 - 1970 \<le> 0" "?y + 1 - 1970 < - 1000000" by simp_all
    have e: "1970 + (?y + 1 - 1970) = ?y + 1" by simp
    have "DayFromYear (?y + 1) \<le> 365 * (?y + 1 - 1970)"
      using DayFromYear_le [OF y(1)] unfolding e by blast
    with y(2) hi assms show False by simp
  qed
  ultimately show ?thesis by simp
qed

lemma month_date:
  assumes "0 \<le> diy" "diy < 365 + leap" "leap = 0 \<or> leap = 1"
  shows "0 \<le> MonthFromDay diy leap \<and> MonthFromDay diy leap \<le> 11
       \<and> 1 \<le> DateFromDay diy leap
       \<and> DateFromDay diy leap \<le> DaysInMonth (MonthFromDay diy leap) leap
       \<and> month_start (MonthFromDay diy leap) leap + DateFromDay diy leap - 1 = diy"
  using assms
  unfolding MonthFromDay_def DateFromDay_def DaysInMonth_def month_start_def
  by (elim disjE) (simp_all split: if_splits)

lemma recombine:
  fixes ms :: int
  assumes "ms = 1000 * q1 + r1" "q1 = 60 * q2 + r2" "q2 = 60 * q3 + r3"
  shows "q3 * 3600000 + r3 * 60000 + r2 * 1000 + r1 = ms"
  unfolding assms(1) unfolding assms(2) unfolding assms(3) by (simp add: algebra_simps)

lemma time_fields:
  fixes ms :: int
  assumes "0 \<le> ms" "ms < 86400000"
  shows "0 \<le> ms div 3600000 \<and> ms div 3600000 \<le> 23
       \<and> MakeTime (ms div 3600000) ((ms div 60000) mod 60) ((ms div 1000) mod 60) (ms mod 1000) = ms"
proof -
  have a: "ms div 60000 = ms div 1000 div 60" "ms div 3600000 = ms div 1000 div 60 div 60"
    by (simp_all add: zdiv_zmult2_eq [symmetric])
  have "ms div 3600000 \<le> 86399999 div 3600000"
    by (rule zdiv_mono1) (use assms in simp_all)
  then have h: "ms div 3600000 \<le> 23"
    by simp
  have h0: "0 \<le> ms div 3600000"
    using assms by (simp add: pos_imp_zdiv_nonneg_iff)
  have m: "MakeTime (ms div 3600000) ((ms div 60000) mod 60) ((ms div 1000) mod 60) (ms mod 1000) = ms"
    unfolding MakeTime_def a
    by (rule recombine [OF mult_div_mod_eq [symmetric] mult_div_mod_eq [symmetric]
          mult_div_mod_eq [symmetric]])
  show ?thesis by (intro conjI) (fact h0, fact h, fact m)
qed

lemma pad_2: "pad 2 n = [digit_char (n div 10 mod 10), digit_char (n mod 10)]"
  by (simp add: numeral_2_eq_2)

lemma pad_3:
  "pad 3 n = [digit_char (n div 10 div 10 mod 10), digit_char (n div 10 mod 10), digit_char (n mod 10)]"
  by (simp add: numeral_3_eq_3)

lemma after_year_punctuated: "well_punctuated (after_year mo dt h mi sec ms)"
  by (simp add: well_punctuated_def after_year_def pad_2 pad_3)

lemma after_year_fields:
  "take 2 (drop 1 (after_year mo dt h mi sec ms)) = pad 2 mo"
  "take 2 (drop 4 (after_year mo dt h mi sec ms)) = pad 2 dt"
  "take 2 (drop 7 (after_year mo dt h mi sec ms)) = pad 2 h"
  "take 2 (drop 10 (after_year mo dt h mi sec ms)) = pad 2 mi"
  "take 2 (drop 13 (after_year mo dt h mi sec ms)) = pad 2 sec"
  "take 3 (drop 16 (after_year mo dt h mi sec ms)) = pad 3 ms"
  by (simp_all add: after_year_def pad_2 pad_3)

lemma parse_after_year:
  assumes "mo < 100" "dt < 100" "h < 100" "mi < 100" "sec < 100" "ms < 1000"
    and "1 \<le> mo" "mo \<le> 12" "1 \<le> dt" "int dt \<le> DaysInMonth (int mo - 1) (InLeapYear (sign * int y))"
    and "h \<le> 23" "mi \<le> 59" "sec \<le> 59"
  shows "parse_fields sign y (after_year mo dt h mi sec ms) =
     Some (TimeClip (MakeDate (MakeDay (sign * int y) (int mo - 1) (int dt))
                              (MakeTime (int h) (int mi) (int sec) (int ms))))"
proof -
  have f: "field 1 2 (after_year mo dt h mi sec ms) = Some mo"
    "field 4 2 (after_year mo dt h mi sec ms) = Some dt"
    "field 7 2 (after_year mo dt h mi sec ms) = Some h"
    "field 10 2 (after_year mo dt h mi sec ms) = Some mi"
    "field 13 2 (after_year mo dt h mi sec ms) = Some sec"
    "field 16 3 (after_year mo dt h mi sec ms) = Some ms"
    unfolding field_def after_year_fields using assms(1-6) by (simp_all add: read_pad)
  show ?thesis
    unfolding parse_fields_def f using after_year_punctuated assms(7-13) by (simp add: Let_def)
qed

lemma pad_Suc_hd: "\<exists>d ds. d < 10 \<and> pad (Suc k) n = digit_char d # ds"
proof (induction k arbitrary: n)
  case 0
  have "n mod 10 < 10 \<and> pad (Suc 0) n = digit_char (n mod 10) # []" by simp
  then show ?case by blast
next
  case (Suc k)
  from Suc [of "n div 10"] obtain d ds where "d < 10" "pad (Suc k) (n div 10) = digit_char d # ds"
    by blast
  then have "d < 10 \<and> pad (Suc (Suc k)) n = digit_char d # (ds @ [digit_char (n mod 10)])"
    by simp
  then show ?case by blast
qed

lemma pad_hd: "0 < k \<Longrightarrow> \<exists>d ds. d < 10 \<and> pad k n = digit_char d # ds"
  using pad_Suc_hd [of "k - 1" n] by simp

lemma Date_parse_year_string:
  assumes "\<bar>y\<bar> \<le> 999999"
  shows "Date_parse (year_string y @ r) =
           parse_fields (if y < 0 then - 1 else 1) (nat \<bar>y\<bar>) r"
proof (cases "0 \<le> y \<and> y \<le> 9999")
  case True
  obtain d ds where d: "d < 10" "pad 4 (nat y) = digit_char d # ds"
    using pad_hd [of 4 "nat y"] by auto
  have l: "length (pad 4 (nat y)) = 4" by (rule length_pad)
  have t: "take 4 (pad 4 (nat y) @ r) = pad 4 (nat y)" "drop 4 (pad 4 (nat y) @ r) = r"
    using l by simp_all
  have rd: "read_digits 0 (pad 4 (nat y)) = Some (nat y)"
    using True by (intro read_pad) auto
  have "Date_parse (pad 4 (nat y) @ r) = parse_fields 1 (nat y) r"
    unfolding Date_parse_def
    using digit_char_not_sign [OF d(1)] t rd l d(2)
    by (simp split: list.splits)
  with True show ?thesis by (simp add: year_string_def)
next
  case False
  have l: "length (pad 6 (nat \<bar>y\<bar>)) = 6" by (rule length_pad)
  have t: "take 6 (pad 6 (nat \<bar>y\<bar>) @ r) = pad 6 (nat \<bar>y\<bar>)" "drop 6 (pad 6 (nat \<bar>y\<bar>) @ r) = r"
    using l by simp_all
  have rd: "read_digits 0 (pad 6 (nat \<bar>y\<bar>)) = Some (nat \<bar>y\<bar>)"
    using assms by (intro read_pad) auto
  have nz: "nat \<bar>y\<bar> \<noteq> 0" using False by auto
  show ?thesis
  proof (cases "y < 0")
    case True
    then have ys: "year_string y = CHR ''-'' # pad 6 (nat \<bar>y\<bar>)"
      using False by (simp add: year_string_def)
    show ?thesis
      unfolding ys Date_parse_def using t rd l nz True by simp
  next
    case pos: False
    then have ys: "year_string y = CHR ''+'' # pad 6 (nat \<bar>y\<bar>)"
      using False by (simp add: year_string_def)
    show ?thesis
      unfolding ys Date_parse_def using t rd l nz pos by simp
  qed
qed

lemma toISOString_eq:
  "toISOString t =
     (let y = YearFromDay (Day t); dayInYear = Day t - DayFromYear y; leap = InLeapYear y;
          ms = TimeWithinDay t
      in year_string y @
         after_year (nat (MonthFromDay dayInYear leap + 1)) (nat (DateFromDay dayInYear leap))
           (nat (ms div 3600000)) (nat ((ms div 60000) mod 60)) (nat ((ms div 1000) mod 60))
           (nat (ms mod 1000)))"
  by (simp add: toISOString_def after_year_def Let_def)

lemma Day_range: "\<bar>t\<bar> \<le> 8640000000000000 \<Longrightarrow> \<bar>Day t\<bar> \<le> 100000000"
proof -
  assume a: "\<bar>t\<bar> \<le> 8640000000000000"
  have "t div 86400000 \<le> 8640000000000000 div 86400000"
    by (rule zdiv_mono1) (use a in simp_all)
  moreover have "(- 8640000000000000) div 86400000 \<le> t div 86400000"
    by (rule zdiv_mono1) (use a in simp_all)
  ultimately show ?thesis by (simp add: Day_def msPerDay_def)
qed

lemma sign_abs: "(if y < 0 then - 1 else 1) * int (nat \<bar>y\<bar>) = (y::int)"
  by simp

lemma Date_parse_toISOString:
  assumes "\<bar>t\<bar> \<le> 8640000000000000"
  shows "Date_parse (toISOString t) = Some (Date t)"
proof -
  define d where "d = Day t"
  define y where "y = YearFromDay d"
  define diy where "diy = d - DayFromYear y"
  define leap where "leap = InLeapYear y"
  define ms where "ms = TimeWithinDay t"
  define m where "m = MonthFromDay diy leap"
  define dt where "dt = DateFromDay diy leap"
  have yr: "\<bar>y\<bar> \<le> 999999"
    unfolding y_def d_def by (rule YearFromDay_range [OF Day_range [OF assms]])
  have diy: "0 \<le> diy" "diy < 365 + leap"
    using YearFromDay_correct [of d] by (simp_all add: diy_def y_def leap_def DaysInYear_leap)
  have lp: "leap = 0 \<or> leap = 1"
    unfolding leap_def by (rule InLeapYear_range)
  note md = month_date [OF diy lp, folded m_def dt_def]
  have ms: "0 \<le> ms" "ms < 86400000"
    by (simp_all add: ms_def TimeWithinDay_def msPerDay_def)
  note tf = time_fields [OF ms]
  have mi: "0 \<le> (ms div 60000) mod 60" "(ms div 60000) mod 60 \<le> 59"
    and se: "0 \<le> (ms div 1000) mod 60" "(ms div 1000) mod 60 \<le> 59"
    and ml: "0 \<le> ms mod 1000" "ms mod 1000 \<le> 999"
    by simp_all
  have dm: "DaysInMonth m leap \<le> 31"
    using md lp unfolding DaysInMonth_def month_start_def by (elim disjE) (simp_all split: if_splits)
  have s: "toISOString t = year_string y @
         after_year (nat (m + 1)) (nat dt) (nat (ms div 3600000)) (nat ((ms div 60000) mod 60))
           (nat ((ms div 1000) mod 60)) (nat (ms mod 1000))"
    by (simp add: toISOString_eq Let_def d_def y_def diy_def leap_def ms_def m_def dt_def)
  have sg: "(if y < 0 then - 1 else 1) * int (nat \<bar>y\<bar>) = y"
    by (rule sign_abs)
  have p: "parse_fields (if y < 0 then - 1 else 1) (nat \<bar>y\<bar>)
        (after_year (nat (m + 1)) (nat dt) (nat (ms div 3600000)) (nat ((ms div 60000) mod 60))
           (nat ((ms div 1000) mod 60)) (nat (ms mod 1000))) =
      Some (TimeClip (MakeDate (MakeDay ((if y < 0 then - 1 else 1) * int (nat \<bar>y\<bar>)) (int (nat (m + 1)) - 1) (int (nat dt)))
         (MakeTime (int (nat (ms div 3600000))) (int (nat ((ms div 60000) mod 60)))
            (int (nat ((ms div 1000) mod 60))) (int (nat (ms mod 1000))))))"
  proof (rule parse_after_year)
    show "nat (m + 1) < 100" using md by linarith
    show "nat dt < 100" using md dm by linarith
    show "nat (ms div 3600000) < 100" using tf by linarith
    show "nat ((ms div 60000) mod 60) < 100" using mi by linarith
    show "nat ((ms div 1000) mod 60) < 100" using se by linarith
    show "nat (ms mod 1000) < 1000" using ml by linarith
    show "1 \<le> nat (m + 1)" using md by linarith
    show "nat (m + 1) \<le> 12" using md by linarith
    show "1 \<le> nat dt" using md by linarith
    have "int (nat (m + 1)) - 1 = m" "int (nat dt) = dt" using md by simp_all
    then show "int (nat dt) \<le> DaysInMonth (int (nat (m + 1)) - 1)
            (InLeapYear ((if y < 0 then - 1 else 1) * int (nat \<bar>y\<bar>)))"
      unfolding sg using md by (simp add: leap_def)
    show "nat (ms div 3600000) \<le> 23" using tf by linarith
    show "nat ((ms div 60000) mod 60) \<le> 59" using mi by linarith
    show "nat ((ms div 1000) mod 60) \<le> 59" using se by linarith
  qed
  have i: "int (nat (m + 1)) - 1 = m" "int (nat dt) = dt"
    "int (nat (ms div 3600000)) = ms div 3600000"
    "int (nat ((ms div 60000) mod 60)) = (ms div 60000) mod 60"
    "int (nat ((ms div 1000) mod 60)) = (ms div 1000) mod 60"
    "int (nat (ms mod 1000)) = ms mod 1000"
    using md tf mi se ml by simp_all
  have mt: "MakeTime (ms div 3600000) ((ms div 60000) mod 60) ((ms div 1000) mod 60) (ms mod 1000) = ms"
    using tf by blast
  have mday: "MakeDay y m dt = d"
    using md by (simp add: MakeDay_def leap_def [symmetric] diy_def)
  have mdate: "MakeDate d ms = t"
    by (simp add: MakeDate_def d_def ms_def Day_def TimeWithinDay_def)
  have "Date_parse (toISOString t) = Some (TimeClip t)"
    unfolding s Date_parse_year_string [OF yr] p sg i mt mday mdate ..
  then show ?thesis using assms by (simp add: TimeClip_def)
qed

subsection \<open>Persist and reload\<close>

lemma toISOString_examples:
  "toISOString 1730548800000 = ''2024-11-02T12:00:00.000Z''"
  "toISOString 0 = ''1970-01-01T00:00:00.000Z''"
  "toISOString (- 1) = ''1969-12-31T23:59:59.999Z''"
  "toISOString 951782400000 = ''2000-02-29T00:00:00.000Z''"
  by code_simp+

lemma new_Date_toJSON:
  "valid_date d \<Longrightarrow> new_Date (Some (date_toJSON d)) = Some d"
  by (cases d) (simp_all add: valid_date_def new_Date_def date_toJSON_def Date_parse_toISOString)

lemma role_of_json_value: "role_of_json (Some (JString (role_value r))) = Some r"
  by (cases r) (simp_all add: role_of_json_def role_value_def)

lemma image_roundtrip:
  "image_of_json (case im of None \<Rightarrow> None | Some i \<Rightarrow> Some (image_toJSON i)) = Some im"
  by (cases im) (simp_all add: image_of_json_def image_toJSON_def property_def string_of_json_def)

lemma message_properties:
  "message_toJSON m = JObject kvs \<Longrightarrow>
   property kvs ''id'' = Some (JString (id_msg m))
   \<and> property kvs ''role'' = Some (JString (role_value (role m)))
   \<and> property kvs ''content'' = Some (JString (content m))
   \<and> property kvs ''timestamp'' = Some (date_toJSON (timestamp m))
   \<and> property kvs ''image'' = (case image_msg m of None \<Rightarrow> None | Some i \<Rightarrow> Some (image_toJSON i))"
  by (cases "image_msg m") (auto simp: message_toJSON_def property_def)

lemma hydrate_message_toJSON:
  assumes "valid_date (timestamp m)"
  shows "hydrate_message (message_toJSON m) = Some m"
proof -
  obtain kvs where k: "message_toJSON m = JObject kvs"
    by (simp add: message_toJSON_def)
  note p = message_properties [OF k]
  have r: "\<lparr>id_msg = id_msg m, role = role m, content = content m, timestamp = timestamp m,
            image_msg = image_msg m\<rparr> = m"
    by simp
  show ?thesis
    unfolding k hydrate_message_def
    using p new_Date_toJSON [OF assms] role_of_json_value [of "role m"]
      image_roundtrip [of "image_msg m"] r
    by (simp add: string_of_json_def)
qed

lemma hydrate_all_toJSON:
  "\<forall>m \<in> set ms. valid_date (timestamp m) \<Longrightarrow> hydrate_all (map message_toJSON ms) = Some ms"
  by (induction ms) (simp_all add: hydrate_message_toJSON)

text \<open>
  C4, as the code has it. For every non-empty transcript whose timestamps are valid
  dates, the persistence effect stores the serialized transcript, and the hydration
  effect of a freshly loaded page reads back the same sequence of messages: equal id,
  role, content, image and timestamp.
\<close>

theorem persist_reload_roundtrip:
  assumes "messages st \<noteq> []"
    and "\<forall>m \<in> set (messages st). valid_date (timestamp m)"
  shows "localStorage (persist_effect st) STORAGE_KEY = Some (JSON_stringify (messages st))
    \<and> hydrate_effect (initial_state (localStorage (persist_effect st))) =
        Some ((initial_state (localStorage (persist_effect st)))\<lparr>messages := messages st\<rparr>)"
proof -
  have s: "localStorage (persist_effect st) STORAGE_KEY = Some (JSON_stringify (messages st))"
    using assms(1) by (simp add: persist_effect_def)
  have "hydrate_effect (initial_state (localStorage (persist_effect st))) =
        Some ((initial_state (localStorage (persist_effect st)))\<lparr>messages := messages st\<rparr>)"
    unfolding hydrate_effect_def
    using s hydrate_all_toJSON [OF assms(2)]
    by (simp add: initial_state_def JSON_stringify_def JSON_parse_def)
  with s show ?thesis by blast
qed

theorem persist_reload_roundtrip_witness:
  "hydrate_effect (initial_state (localStorage (persist_effect example_state))) =
     Some ((initial_state (localStorage (persist_effect example_state)))\<lparr>messages := [example_message]\<rparr>)
   \<and> localStorage (persist_effect example_state) STORAGE_KEY =
       Some (JsonText (JArray [JObject
         [(''id'', JString ''1730548800000''), (''role'', JString ''user''),
          (''content'', JString ''Hi''), (''timestamp'', JString (toISOString 1730548800000))]]))"
proof -
  have m: "messages example_state = [example_message]"
    by (simp add: example_state_def)
  have n: "messages example_state \<noteq> []"
    by (simp add: m)
  have v: "\<forall>m \<in> set (messages example_state). valid_date (timestamp m)"
    by (simp add: m example_message_def valid_date_def)
  show ?thesis
    using persist_reload_roundtrip [OF n v]
    by (simp add: m JSON_stringify_def message_toJSON_def example_message_def role_value_def
          date_toJSON_def)
qed

text \<open>
  The claim as stated, for every non-empty transcript, fails on a message whose timestamp
  is an Invalid Date: it is stored as \<^verbatim>\<open>null\<close>, and comes back as the epoch.
\<close>

theorem persist_reload_counterexample:
  "hydrate_effect (initial_state (localStorage (persist_effect
       (example_state\<lparr>messages := [undated_message]\<rparr>)))) =
     Some ((initial_state (localStorage (persist_effect
       (example_state\<lparr>messages := [undated_message]\<rparr>))))
         \<lparr>messages := [undated_message\<lparr>timestamp := Date 0\<rparr>]\<rparr>)
   \<and> undated_message\<lparr>timestamp := Date 0\<rparr> \<noteq> undated_message
   \<and> messages (example_state\<lparr>messages := [undated_message]\<rparr>) \<noteq> []"
  by (simp add: hydrate_effect_def persist_effect_def initial_state_def example_state_def
        JSON_stringify_def JSON_parse_def message_toJSON_def undated_message_def
        example_message_def hydrate_message_def property_def string_of_json_def
        role_of_json_def role_value_def new_Date_def date_toJSON_def TimeClip_def
        image_of_json_def STORAGE_KEY_def)

end
